theory Spec2Isabelle
  imports Main
begin

section \<open>The list component of the table (src/Table.tsx)\<close>

text \<open>
  The component \<open>ListComponent\<close> is a React function component. Its hooks are modelled
  as follows: the values held by \<open>useRef\<close> and \<open>useState\<close> are fields of a state record
  that every callback takes and returns; the props and the table context are a record of
  values that do not change; what a callback reads from the document when it runs (the
  element behind \<open>tableRef\<close>, the list instance behind \<open>listRef\<close>, the row found by
  \<open>findRowByUuidAndKey\<close>) is passed to it as the document of that moment. A property access
  on \<open>null\<close> or \<open>undefined\<close> is the error \<open>TypeError\<close>.

  Numbers are integers: every number the component reads from the document
  (\<open>offsetHeight\<close>, \<open>scrollWidth\<close>, \<open>clientWidth\<close>) is an integer, and the heights and
  widths of the configuration are taken as whole pixels.
\<close>

subsection \<open>Values\<close>

text \<open>\<open>Text\<close> of the source: a string or a number.\<close>

datatype Text = Str string | Num int

text \<open>A number that may be \<open>NaN\<close>, as \<open>parseInt\<close> returns it.\<close>

datatype jsnum = Fin int | NaN

fun js_add :: "jsnum \<Rightarrow> int \<Rightarrow> jsnum" where
  "js_add (Fin a) b = Fin (a + b)"
| "js_add NaN b = NaN"

datatype error = TypeError

text \<open>
  An element of a rendered row: its box height, the value \<open>parseInt\<close> gives for its
  \<open>data-index\<close> attribute (\<open>NaN\<close> when the attribute is missing or not a number), and its
  children.
\<close>

datatype node = Node (offsetHeight: int) (parsed_index: jsnum) (children: "node list")

text \<open>Indexing a JavaScript array: \<open>undefined\<close> out of range, never an exception.\<close>

definition js_nth :: "'a list \<Rightarrow> nat \<Rightarrow> 'a option" where
  "js_nth xs i = (if i < length xs then Some (xs ! i) else None)"

text \<open>A number is truthy when it is not zero; \<open>undefined\<close> is falsy.\<close>

definition truthy :: "int option \<Rightarrow> bool" where
  "truthy v = (case v of None \<Rightarrow> False | Some n \<Rightarrow> n \<noteq> 0)"

text \<open>\<open>a || b\<close> on an optional number \<open>a\<close>.\<close>

definition js_or :: "int option \<Rightarrow> int \<Rightarrow> int" where
  "js_or a b = (case a of None \<Rightarrow> b | Some n \<Rightarrow> if n \<noteq> 0 then n else b)"

subsection \<open>Props and context\<close>

text \<open>
  A column of the table context. Modelled from the spec: the column type is declared
  outside Table.tsx; the spec gives it as \<open>{ key: string, fixedWidth?: number }\<close>.
\<close>

record column =
  key :: string
  col_fixedWidth :: "int option"

text \<open>
  The props of \<open>ListComponent\<close> that the callbacks read, and the fields taken from
  \<open>tableContext.state\<close>. \<open>itemKey\<close> is the optional key extractor of the user; it is
  applied to \<open>data[dataIndex]\<close>, which is \<open>undefined\<close> out of range, and may return
  \<open>undefined\<close>.
\<close>

record 'r props =
  data :: "'r list"
  itemKey :: "('r option \<Rightarrow> Text option) option"
  rowHeight :: "int option"
  estimatedRowHeight :: int

record table_context =
  uuid :: string
  columns :: "column list"
  minColumnWidth :: int
  fixedWidth :: int
  remainingCols :: "column list"

text \<open>\<open>const defaultSize = rowHeight || estimatedRowHeight\<close>\<close>

definition defaultSize :: "'r props \<Rightarrow> int" where
  "defaultSize p = js_or (rowHeight p) (estimatedRowHeight p)"

subsection \<open>Keys\<close>

definition generateKeyFromRow ::
  "('r option \<Rightarrow> Text option) option \<Rightarrow> 'r option \<Rightarrow> int \<Rightarrow> Text" where
  "generateKeyFromRow extractor row defaultValue =
     (let generatedKey = (case extractor of Some f \<Rightarrow> f row | None \<Rightarrow> None)
      in case generatedKey of Some k \<Rightarrow> k | None \<Rightarrow> Num defaultValue)"

text \<open>The \<open>itemKey\<close> function handed to \<open>VariableSizeList\<close>; position 0 is the header.\<close>

definition list_itemKey :: "'r props \<Rightarrow> table_context \<Rightarrow> nat \<Rightarrow> Text" where
  "list_itemKey p ctx index =
     (if index = 0 then Str (uuid ctx @ ''-header'')
      else let dataIndex = index - 1;
               row = js_nth (data p) dataIndex
           in generateKeyFromRow (itemKey p) row (int index))"

subsection \<open>Heights\<close>

text \<open>
  The list instance behind \<open>listRef\<close>: the table \<open>_instanceProps.itemMetadataMap\<close> of the
  windowing engine, from a position to the size stored for it.
\<close>

record list_handle =
  itemMetadataMap :: "nat \<rightharpoonup> int"

text \<open>
  The first argument of \<open>calculateHeight\<close> is a number (a data index) or the row element
  itself (possibly \<open>null\<close>), then with the data index as the optional second argument.
\<close>

datatype query = ByIndex nat | ByRow "node option" "nat option"

text \<open>The key under which \<open>calculateHeight\<close> looks up the mounted row of a data index.\<close>

definition calculateHeight_key :: "'r props \<Rightarrow> nat \<Rightarrow> Text" where
  "calculateHeight_key p dataIndex =
     generateKeyFromRow (itemKey p) (js_nth (data p) dataIndex) (int dataIndex)"

text \<open>
  \<open>dataIndex + 1\<close> where \<open>dataIndex\<close> is the number queried or \<open>optionalDataIndex\<close>, which
  defaults to \<open>null\<close>: \<open>null + 1\<close> is 1.
\<close>

definition metadata_position :: "query \<Rightarrow> nat" where
  "metadata_position q =
     (case q of ByIndex i \<Rightarrow> i + 1
      | ByRow r None \<Rightarrow> 1
      | ByRow r (Some i) \<Rightarrow> i + 1)"

text \<open>
  \<open>calculateHeight\<close>. The second argument is \<open>findRowByUuidAndKey\<close>, a search in the
  document of the moment. The key is computed for every query in the source but read only
  when the query is a number, where it is \<open>calculateHeight_key\<close>.
\<close>

definition calculateHeight ::
  "'r props \<Rightarrow> table_context \<Rightarrow> (string \<Rightarrow> Text \<Rightarrow> node option) \<Rightarrow>
     list_handle option \<Rightarrow> query \<Rightarrow> int" where
  "calculateHeight p ctx findRowByUuidAndKey listRef queryParam =
     (let row = (case queryParam of
                   ByIndex dataIndex \<Rightarrow> findRowByUuidAndKey (uuid ctx) (calculateHeight_key p dataIndex)
                 | ByRow r opt \<Rightarrow> r)
      in case row of
           None \<Rightarrow>
             (case listRef of
                None \<Rightarrow> defaultSize p
              | Some l \<Rightarrow>
                  (case itemMetadataMap l (metadata_position queryParam) of
                     None \<Rightarrow> defaultSize p
                   | Some sz \<Rightarrow> if sz \<noteq> 0 then sz else defaultSize p))
         | Some r \<Rightarrow>
             (let arr = (if truthy (rowHeight p) then drop 1 (children r) else children r)
              in js_or (rowHeight p) 0 + foldl (\<lambda>pv c. pv + offsetHeight c) 0 arr))"

subsection \<open>The document\<close>

record box =
  scrollWidth :: int
  clientWidth :: int

text \<open>
  The element behind \<open>tableRef\<close> (the inner element of the list): its own scroll and client
  widths, the rendered width that the width allocator reads, its parent and its children.
\<close>

record table_element = box +
  el_width :: int
  parentElement :: "box option"
  el_children :: "node list"

text \<open>\<open>NO_PARENT.parentElement\<close>\<close>

definition NO_PARENT :: box where
  "NO_PARENT = \<lparr>scrollWidth = 0, clientWidth = 0\<rparr>"

text \<open>
  What the callbacks read from the page when they run: \<open>tableRef.current\<close>,
  \<open>listRef.current\<close> and \<open>window.document.documentMode\<close>.
\<close>

record document =
  tableRef :: "table_element option"
  listRef :: "list_handle option"
  documentMode :: bool

subsection \<open>Column widths\<close>

text \<open>
  Modelled from the spec: \<open>calculateColumnWidths\<close> is imported from ./useCellResize, which
  is not among the sources. The spec gives it the container element, the flexible columns,
  the total of the fixed widths, the minimum column width and all the columns; with
  \<open>available = containerWidth - fixedTotalWidth\<close> each flexible column receives
  \<open>max(minColumnWidth, floor(available / count(flexibleColumns)))\<close>, and a container that
  is not mounted gives the empty vector.
\<close>

definition calculateColumnWidths ::
  "table_element option \<Rightarrow> column list \<Rightarrow> int \<Rightarrow> int \<Rightarrow> column list \<Rightarrow> int list" where
  "calculateColumnWidths containerElement flexibleColumns fixedTotalWidth minWidth allColumns =
     (case containerElement of
        None \<Rightarrow> []
      | Some e \<Rightarrow>
          (let available = el_width e - fixedTotalWidth
           in map (\<lambda>col. max minWidth (available div int (length flexibleColumns)))
                flexibleColumns))"

text \<open>
  Modelled from the spec: \<open>arraysMatch\<close> is imported from ./util, which is not among the
  sources. The spec has the computed vector compared element-wise against the previous
  one.
\<close>

definition arraysMatch :: "int list \<Rightarrow> int list \<Rightarrow> bool" where
  "arraysMatch a b = list_all2 (=) a b"

subsection \<open>State, timers and listeners\<close>

text \<open>
  The callbacks that the component hands to \<open>window.setTimeout\<close>: the one of
  \<open>clearSizeCache\<close>, the one of \<open>shouldUseRowWidth\<close>, \<open>pixelWidthsHelper\<close> (a closure
  over the \<open>pixelWidths\<close> of the render that made it) and the one that dispatches a resize
  event after mounting.
\<close>

datatype callback = ResetTimer | RowWidthTimer | PixelWidthsTimer "int list" | KickTimer

text \<open>The two resize listeners of the component.\<close>

datatype listener = ShouldUseRowWidth | CalculatepixelWidths

text \<open>
  The three refs that hold timer ids, the two state variables with the number of calls of
  their setters, the pending timers of the window (id, delay, callback) with the last id
  handed out, the resize listeners registered on the window, and the arguments of the
  calls received by \<open>listRef.current.resetAfterIndex\<close>.
\<close>

record state =
  resizeRef :: nat
  timeoutRef :: nat
  pixelWidthsRef :: nat
  pixelWidths :: "int list"
  useRowWidth :: bool
  updates :: nat
  timers :: "(nat \<times> nat \<times> callback) list"
  lastTimer :: nat
  listeners :: "listener list"
  resets :: "jsnum list"

text \<open>\<open>window.setTimeout\<close> returns a fresh positive id; \<open>window.clearTimeout\<close> drops it.\<close>

definition setTimeout :: "callback \<Rightarrow> nat \<Rightarrow> state \<Rightarrow> nat \<times> state" where
  "setTimeout cb delay s =
     (Suc (lastTimer s),
      s\<lparr>timers := timers s @ [(Suc (lastTimer s), delay, cb)], lastTimer := Suc (lastTimer s)\<rparr>)"

definition clearTimeout :: "nat \<Rightarrow> state \<Rightarrow> state" where
  "clearTimeout t s = s\<lparr>timers := filter (\<lambda>e. fst e \<noteq> t) (timers s)\<rparr>"

definition addEventListener :: "listener \<Rightarrow> state \<Rightarrow> state" where
  "addEventListener l s =
     (if l \<in> set (listeners s) then s else s\<lparr>listeners := listeners s @ [l]\<rparr>)"

definition removeEventListener :: "listener \<Rightarrow> state \<Rightarrow> state" where
  "removeEventListener l s = s\<lparr>listeners := filter (\<lambda>x. x \<noteq> l) (listeners s)\<rparr>"

definition resetAfterIndex :: "jsnum \<Rightarrow> state \<Rightarrow> state" where
  "resetAfterIndex index s = s\<lparr>resets := resets s @ [index]\<rparr>"

definition setPixelWidths :: "int list \<Rightarrow> state \<Rightarrow> state" where
  "setPixelWidths widths s = s\<lparr>pixelWidths := widths, updates := Suc (updates s)\<rparr>"

definition setUseRowWidth :: "bool \<Rightarrow> state \<Rightarrow> state" where
  "setUseRowWidth b s = s\<lparr>useRowWidth := b, updates := Suc (updates s)\<rparr>"

subsection \<open>The size cache\<close>

definition clearSizeCache :: "document \<Rightarrow> nat \<Rightarrow> bool \<Rightarrow> state \<Rightarrow> state" where
  "clearSizeCache d dataIndex forceUpdate s =
     (case listRef d of
        None \<Rightarrow> s
      | Some l \<Rightarrow>
          (let s1 = (if timeoutRef s \<noteq> 0 then clearTimeout (timeoutRef s) s else s);
               index = dataIndex + 1
           in if forceUpdate then resetAfterIndex (Fin (int index)) s1
              else (let (t, s2) = setTimeout ResetTimer 50 s1 in s2\<lparr>timeoutRef := t\<rparr>)))"

text \<open>
  The argument of \<open>parseInt\<close> in the timer of \<open>clearSizeCache\<close>, parsed:
  \<open>tableRef.current ? tableRef.current.children[1].children[0].dataset.index : 0\<close>.
\<close>

definition first_mounted_index :: "document \<Rightarrow> error + jsnum" where
  "first_mounted_index d =
     (case tableRef d of
        None \<Rightarrow> Inr (Fin 0)
      | Some t \<Rightarrow>
          (case js_nth (el_children t) 1 of
             None \<Rightarrow> Inl TypeError
           | Some body \<Rightarrow>
               (case js_nth (children body) 0 of
                  None \<Rightarrow> Inl TypeError
                | Some r \<Rightarrow> Inr (parsed_index r))))"

text \<open>The callback that \<open>clearSizeCache\<close> hands to \<open>setTimeout\<close>.\<close>

definition clearSizeCache_timer :: "document \<Rightarrow> state \<Rightarrow> error + state" where
  "clearSizeCache_timer d s =
     (case first_mounted_index d of
        Inl e \<Rightarrow> Inl e
      | Inr n \<Rightarrow>
          (let resetIndex = js_add n 1
           in case listRef d of
                None \<Rightarrow> Inl TypeError
              | Some l \<Rightarrow> Inr (resetAfterIndex resetIndex s)))"

subsection \<open>Reactions to a resize\<close>

text \<open>
  \<open>pixelWidthsHelper\<close>; the second argument is the \<open>pixelWidths\<close> of the render whose
  closure runs.
\<close>

definition pixelWidthsHelper :: "table_context \<Rightarrow> int list \<Rightarrow> document \<Rightarrow> state \<Rightarrow> state" where
  "pixelWidthsHelper ctx captured d s =
     (let widths = calculateColumnWidths (tableRef d) (remainingCols ctx) (fixedWidth ctx)
                     (minColumnWidth ctx) (columns ctx)
      in if \<not> arraysMatch widths captured then setPixelWidths widths s else s)"

definition shouldUseRowWidth :: "state \<Rightarrow> state" where
  "shouldUseRowWidth s =
     (let s1 = (if resizeRef s \<noteq> 0 then clearTimeout (resizeRef s) s else s);
          (t, s2) = setTimeout RowWidthTimer 50 s1
      in s2\<lparr>resizeRef := t\<rparr>)"

text \<open>The callback that \<open>shouldUseRowWidth\<close> hands to \<open>setTimeout\<close>.\<close>

definition shouldUseRowWidth_timer :: "document \<Rightarrow> state \<Rightarrow> error + state" where
  "shouldUseRowWidth_timer d s =
     (case (case tableRef d of None \<Rightarrow> Some NO_PARENT | Some t \<Rightarrow> parentElement t) of
        None \<Rightarrow> Inl TypeError
      | Some pe \<Rightarrow> Inr (setUseRowWidth (scrollWidth pe \<le> clientWidth pe) s))"

text \<open>
  \<open>calculatepixelWidths\<close>. The listener registered on the window is the one of the latest
  render, so the \<open>pixelWidthsHelper\<close> it schedules closes over the current \<open>pixelWidths\<close>.
\<close>

definition calculatepixelWidths :: "state \<Rightarrow> state" where
  "calculatepixelWidths s =
     (let s1 = (if pixelWidthsRef s \<noteq> 0 then clearTimeout (pixelWidthsRef s) s else s);
          (t, s2) = setTimeout (PixelWidthsTimer (pixelWidths s)) 50 s1
      in s2\<lparr>pixelWidthsRef := t\<rparr>)"

subsection \<open>The event loop\<close>

fun run_listener :: "listener \<Rightarrow> state \<Rightarrow> state" where
  "run_listener ShouldUseRowWidth s = shouldUseRowWidth s"
| "run_listener CalculatepixelWidths s = calculatepixelWidths s"

text \<open>\<open>window.dispatchEvent(new Event("resize"))\<close>, and a resize of the window.\<close>

definition dispatch_resize :: "state \<Rightarrow> state" where
  "dispatch_resize s = foldl (\<lambda>acc l. run_listener l acc) s (listeners s)"

fun run_callback :: "table_context \<Rightarrow> document \<Rightarrow> callback \<Rightarrow> state \<Rightarrow> error + state" where
  "run_callback ctx d ResetTimer s = clearSizeCache_timer d s"
| "run_callback ctx d RowWidthTimer s = shouldUseRowWidth_timer d s"
| "run_callback ctx d (PixelWidthsTimer captured) s = Inr (pixelWidthsHelper ctx captured d s)"
| "run_callback ctx d KickTimer s = Inr (if \<not> documentMode d then dispatch_resize s else s)"

text \<open>
  A timer fires: when it is still pending it leaves the table of the window and its
  callback runs on the document of that moment; a timer that was cleared does nothing.
\<close>

definition fire :: "table_context \<Rightarrow> document \<Rightarrow> nat \<Rightarrow> state \<Rightarrow> error + state" where
  "fire ctx d t s =
     (case map_of (timers s) t of
        None \<Rightarrow> Inr s
      | Some (delay, cb) \<Rightarrow> run_callback ctx d cb (clearTimeout t s))"

subsection \<open>Mounting and unmounting\<close>

definition initial :: state where
  "initial = \<lparr>resizeRef = 0, timeoutRef = 0, pixelWidthsRef = 0, pixelWidths = [],
     useRowWidth = True, updates = 0, timers = [], lastTimer = 0, listeners = [], resets = []\<rparr>"

text \<open>
  The effects of the first render, in the order of the source: the layout effect
  \<open>pixelWidthsHelper\<close>, the initial \<open>setUseRowWidth\<close> (which reads \<open>tableRef.current\<close>
  without a guard), the timer that dispatches a resize, and the two listeners.
\<close>

definition mount :: "table_context \<Rightarrow> document \<Rightarrow> error + state" where
  "mount ctx d =
     (let s1 = pixelWidthsHelper ctx [] d initial
      in case tableRef d of
           None \<Rightarrow> Inl TypeError
         | Some t \<Rightarrow>
             (let s2 = setUseRowWidth (scrollWidth t \<le> clientWidth t) s1;
                  s3 = snd (setTimeout KickTimer 0 s2);
                  s4 = addEventListener ShouldUseRowWidth s3;
                  s5 = addEventListener CalculatepixelWidths s4
              in Inr s5))"

text \<open>The cleanups of the three effects, in the order of the source.\<close>

definition unmount :: "state \<Rightarrow> state" where
  "unmount s =
     (let s1 = (if resizeRef s \<noteq> 0 then clearTimeout (resizeRef s) s else s);
          s2 = removeEventListener ShouldUseRowWidth s1;
          s3 = (if pixelWidthsRef s2 \<noteq> 0 then clearTimeout (pixelWidthsRef s2) s2 else s2);
          s4 = removeEventListener CalculatepixelWidths s3
      in if timeoutRef s4 \<noteq> 0 then clearTimeout (timeoutRef s4) s4 else s4)"

text \<open>
  What happens to a mounted component: the window is resized, a timer fires, a row calls
  \<open>clearSizeCache\<close>. Each event comes with the document of its moment. An exception
  thrown by a timer callback is reported by the browser and the page goes on; every
  callback of the component throws, if it does, before its first write, so the state is
  then the one without the timer.
\<close>

datatype event = Resize | Fire nat | ClearSizeCache nat bool

fun step :: "table_context \<Rightarrow> document \<Rightarrow> event \<Rightarrow> state \<Rightarrow> state" where
  "step ctx d Resize s = dispatch_resize s"
| "step ctx d (Fire t) s = (case fire ctx d t s of Inr s' \<Rightarrow> s' | Inl e \<Rightarrow> clearTimeout t s)"
| "step ctx d (ClearSizeCache dataIndex forceUpdate) s = clearSizeCache d dataIndex forceUpdate s"

fun run :: "table_context \<Rightarrow> (document \<times> event) list \<Rightarrow> state \<Rightarrow> state" where
  "run ctx [] s = s"
| "run ctx ((d, e) # evs) s = run ctx evs (step ctx d e s)"

subsection \<open>The pending timers of a component\<close>

text \<open>
  The ref in which the component keeps the id of a timer with the given callback; the timer
  that dispatches the resize after mounting is kept nowhere.
\<close>

fun timer_ref :: "state \<Rightarrow> callback \<Rightarrow> nat option" where
  "timer_ref s ResetTimer = Some (timeoutRef s)"
| "timer_ref s RowWidthTimer = Some (resizeRef s)"
| "timer_ref s (PixelWidthsTimer captured) = Some (pixelWidthsRef s)"
| "timer_ref s KickTimer = None"

text \<open>
  Every pending timer has a positive id that the window has handed out, the ids are
  distinct, a pending debounce timer is the one whose id its ref holds, and a ref holds
  no id that the window has yet to hand out.
\<close>

definition timers_tracked :: "state \<Rightarrow> bool" where
  "timers_tracked s =
     (list_all (\<lambda>e. 0 < fst e \<and> fst e \<le> lastTimer s \<and>
                  (case timer_ref s (snd (snd e)) of None \<Rightarrow> True | Some r \<Rightarrow> fst e = r))
        (timers s) \<and>
      distinct (map fst (timers s)) \<and>
      resizeRef s \<le> lastTimer s \<and> pixelWidthsRef s \<le> lastTimer s \<and>
      timeoutRef s \<le> lastTimer s)"

fun is_widths_timer :: "callback \<Rightarrow> bool" where
  "is_widths_timer (PixelWidthsTimer captured) = True"
| "is_widths_timer cb = False"

fun is_Fire :: "event \<Rightarrow> bool" where
  "is_Fire (Fire t) = True"
| "is_Fire e = False"

subsection \<open>A page to compute on\<close>

text \<open>
  A table with one fixed column of width 200 and three flexible columns, and a page whose
  table element has a header and a body of two mounted rows (the rows of data indices 4
  and 5) in a parent of the given scroll and client widths.
\<close>

definition example_context :: table_context where
  "example_context =
     \<lparr>uuid = ''t'',
      columns = [\<lparr>key = ''id'', col_fixedWidth = Some 200\<rparr>, \<lparr>key = ''a'', col_fixedWidth = None\<rparr>,
                 \<lparr>key = ''b'', col_fixedWidth = None\<rparr>, \<lparr>key = ''c'', col_fixedWidth = None\<rparr>],
      minColumnWidth = 80, fixedWidth = 200,
      remainingCols = [\<lparr>key = ''a'', col_fixedWidth = None\<rparr>, \<lparr>key = ''b'', col_fixedWidth = None\<rparr>,
                       \<lparr>key = ''c'', col_fixedWidth = None\<rparr>]\<rparr>"

definition example_document :: "int \<Rightarrow> int \<Rightarrow> document" where
  "example_document sw cw =
     \<lparr>tableRef = Some \<lparr>scrollWidth = sw, clientWidth = cw, el_width = cw,
          parentElement = Some \<lparr>scrollWidth = sw, clientWidth = cw\<rparr>,
          el_children = [Node 32 NaN [], Node 74 NaN [Node 37 (Fin 4) [], Node 37 (Fin 5) []]]\<rparr>,
      listRef = Some \<lparr>itemMetadataMap = Map.empty\<rparr>,
      documentMode = False\<rparr>"

section \<open>Row keys\<close>

text \<open>
  C7. The key of a row is the result of the user's extractor when an extractor is
  supplied and its result is not \<open>undefined\<close>; with no extractor, or when the extractor
  returns \<open>undefined\<close>, it is the fallback index. The function has no failing branch: it
  returns a key for every input.
\<close>

theorem generateKeyFromRow_resolves:
  "(extractor = Some f \<and> f row = Some k \<longrightarrow> generateKeyFromRow extractor row d = k) \<and>
   (extractor = None \<or> (extractor = Some f \<and> f row = None) \<longrightarrow>
      generateKeyFromRow extractor row d = Num d)"
  by (auto simp: generateKeyFromRow_def)

theorem generateKeyFromRow_resolves_witness:
  "generateKeyFromRow (Some (\<lambda>r. if r = Some (7::nat) then Some (Str ''seven'') else None))
      (Some 7) 3 = Str ''seven'' \<and>
   generateKeyFromRow (Some (\<lambda>r. if r = Some (7::nat) then Some (Str ''seven'') else None))
      (Some 8) 3 = Num 3 \<and>
   generateKeyFromRow None (Some (8::nat)) 3 = Num 3"
proof -
  let ?f = "\<lambda>r. if r = Some (7::nat) then Some (Str ''seven'') else None"
  show ?thesis
    using generateKeyFromRow_resolves [of "Some ?f" ?f "Some 7" "Str ''seven''" 3]
      generateKeyFromRow_resolves [of "Some ?f" ?f "Some 8" undefined 3]
      generateKeyFromRow_resolves [of None ?f "Some 8" undefined 3]
    by simp
qed

text \<open>
  C10. For a data row at position \<open>index \<ge> 1\<close> of the list, when no extractor is supplied
  or the extractor returns \<open>undefined\<close> for the row, the key handed to the windowing engine
  is \<open>index\<close> and the key under which \<open>calculateHeight\<close> searches the mounted row is
  \<open>index - 1\<close>: the two keys differ. The height computed for the row depends on the
  document only through the element found under the key \<open>index - 1\<close>.
\<close>

theorem fallback_keys_differ:
  assumes "0 < index"
    and "itemKey p = None \<or> (\<exists>f. itemKey p = Some f \<and> f (js_nth (data p) (index - 1)) = None)"
  shows "list_itemKey p ctx index = Num (int index) \<and>
     calculateHeight_key p (index - 1) = Num (int index - 1) \<and>
     list_itemKey p ctx index \<noteq> calculateHeight_key p (index - 1) \<and>
     (findRow (uuid ctx) (Num (int index - 1)) = findRow' (uuid ctx) (Num (int index - 1)) \<longrightarrow>
        calculateHeight p ctx findRow l (ByIndex (index - 1)) =
        calculateHeight p ctx findRow' l (ByIndex (index - 1)))"
  using assms
  by (auto simp: list_itemKey_def calculateHeight_key_def generateKeyFromRow_def Let_def
      calculateHeight_def of_nat_diff)

theorem fallback_keys_differ_witness:
  "list_itemKey \<lparr>data = [''x'', ''y''], itemKey = None, rowHeight = None, estimatedRowHeight = 37\<rparr>
      example_context 2 = Num 2 \<and>
   calculateHeight_key
      \<lparr>data = [''x'', ''y''], itemKey = None, rowHeight = None, estimatedRowHeight = 37\<rparr> 1 = Num 1"
proof -
  let ?p = "\<lparr>data = [''x'', ''y''], itemKey = None, rowHeight = None, estimatedRowHeight = 37\<rparr>"
  have pos: "0 < (2::nat)" by simp
  have none: "itemKey ?p = None \<or>
      (\<exists>f. itemKey ?p = Some f \<and> f (js_nth (data ?p) (2 - 1)) = None)"
    by simp
  from fallback_keys_differ [OF pos none, of example_context] show ?thesis by simp
qed

section \<open>Row heights\<close>

lemma foldl_offsetHeight:
  "foldl (\<lambda>pv c. pv + offsetHeight c) a xs = a + sum_list (map offsetHeight xs)"
  by (induction xs arbitrary: a) simp_all

text \<open>
  C3, as amended. For a data index \<open>i\<close>: when no mounted row is found and the list is not
  attached, \<open>calculateHeight\<close> returns the default height (\<open>rowHeight\<close> when it is given and
  not zero, else \<open>estimatedRowHeight\<close>); when the list is attached and no mounted row is
  found, it returns the size that the engine's table holds at position \<open>i + 1\<close>, or the
  default height when the table holds none or holds zero; when the row is mounted it
  returns, with a fixed \<open>rowHeight\<close>, the \<open>rowHeight\<close> plus the box heights of the
  children of the row element after the first, and without one the box heights of all
  the children.
\<close>

theorem calculateHeight_preference:
  "(findRow (uuid ctx) (calculateHeight_key p i) = None \<and> lref = None \<longrightarrow>
      calculateHeight p ctx findRow lref (ByIndex i) = defaultSize p) \<and>
   (findRow (uuid ctx) (calculateHeight_key p i) = None \<and> lref = Some l \<longrightarrow>
      calculateHeight p ctx findRow lref (ByIndex i) =
        (case itemMetadataMap l (i + 1) of
           None \<Rightarrow> defaultSize p
         | Some sz \<Rightarrow> if sz \<noteq> 0 then sz else defaultSize p)) \<and>
   (findRow (uuid ctx) (calculateHeight_key p i) = Some r \<longrightarrow>
      calculateHeight p ctx findRow lref (ByIndex i) =
        (case rowHeight p of
           None \<Rightarrow> sum_list (map offsetHeight (children r))
         | Some h \<Rightarrow>
             if h \<noteq> 0 then h + sum_list (map offsetHeight (drop 1 (children r)))
             else sum_list (map offsetHeight (children r)))) \<and>
   defaultSize p =
     (case rowHeight p of
        None \<Rightarrow> estimatedRowHeight p
      | Some h \<Rightarrow> if h \<noteq> 0 then h else estimatedRowHeight p)"
  by (auto simp: calculateHeight_def metadata_position_def defaultSize_def js_or_def truthy_def
      foldl_offsetHeight split: option.splits)

theorem calculateHeight_preference_witness:
  "calculateHeight \<lparr>data = [''x''], itemKey = None, rowHeight = None, estimatedRowHeight = 37\<rparr>
     example_context (\<lambda>u k. None) None (ByIndex 0) = 37 \<and>
   calculateHeight \<lparr>data = [''x''], itemKey = None, rowHeight = None, estimatedRowHeight = 37\<rparr>
     example_context (\<lambda>u k. None) (Some \<lparr>itemMetadataMap = [Suc 0 \<mapsto> 52]\<rparr>) (ByIndex 0) = 52 \<and>
   calculateHeight \<lparr>data = [''x''], itemKey = None, rowHeight = Some 40, estimatedRowHeight = 37\<rparr>
     example_context (\<lambda>u k. Some (Node 140 (Fin 0) [Node 40 NaN [], Node 100 NaN []])) None
     (ByIndex 0) = 140"
proof -
  let ?p = "\<lparr>data = [''x''], itemKey = None, rowHeight = None, estimatedRowHeight = 37\<rparr>"
  let ?q = "\<lparr>data = [''x''], itemKey = None, rowHeight = Some 40, estimatedRowHeight = 37\<rparr>"
  let ?r = "Node 140 (Fin 0) [Node 40 NaN [], Node 100 NaN []]"
  show ?thesis
    using calculateHeight_preference [of "\<lambda>u k. None" example_context ?p 0 None undefined undefined]
      calculateHeight_preference [of "\<lambda>u k. None" example_context ?p 0
        "Some \<lparr>itemMetadataMap = [Suc 0 \<mapsto> 52]\<rparr>" "\<lparr>itemMetadataMap = [Suc 0 \<mapsto> 52]\<rparr>" undefined]
      calculateHeight_preference [of "\<lambda>u k. Some ?r" example_context ?q 0 None undefined ?r]
    by simp
qed

text \<open>
  C3 as stated fails for a mounted row when a fixed \<open>rowHeight\<close> is configured: with
  \<open>rowHeight\<close> 40 and a row element whose children are 40 and 100 high the result is 140,
  not the \<open>rowHeight\<close> plus the heights of all the children, which is 180.
\<close>

theorem calculateHeight_children_counterexample:
  "calculateHeight \<lparr>data = [''x''], itemKey = None, rowHeight = Some 40, estimatedRowHeight = 37\<rparr>
     example_context (\<lambda>u k. Some (Node 140 (Fin 0) [Node 40 NaN [], Node 100 NaN []])) None
     (ByIndex 0) \<noteq>
   40 + sum_list (map offsetHeight (children (Node 140 (Fin 0) [Node 40 NaN [], Node 100 NaN []])))"
  by (simp add: calculateHeight_def truthy_def js_or_def)

text \<open>
  C8. While the list is not attached, \<open>clearSizeCache\<close> returns the state as it found it:
  no reset is made and no timer is armed or cleared; and \<open>calculateHeight\<close> returns the
  default height for a row that is not mounted, whether it was queried by index or by a
  missing element. Neither has a failing branch.
\<close>

theorem detached_list_noop:
  "(listRef d = None \<longrightarrow> clearSizeCache d dataIndex forceUpdate s = s) \<and>
   (findRow (uuid ctx) (calculateHeight_key p i) = None \<longrightarrow>
      calculateHeight p ctx findRow None (ByIndex i) = defaultSize p) \<and>
   calculateHeight p ctx findRow None (ByRow None opt) = defaultSize p"
  by (simp add: clearSizeCache_def calculateHeight_def)

theorem detached_list_noop_witness:
  "clearSizeCache \<lparr>tableRef = None, listRef = None, documentMode = False\<rparr> 3 True initial = initial \<and>
   clearSizeCache \<lparr>tableRef = None, listRef = None, documentMode = False\<rparr> 3 False initial = initial \<and>
   calculateHeight \<lparr>data = [''x''], itemKey = None, rowHeight = None, estimatedRowHeight = 37\<rparr>
     example_context (\<lambda>u k. None) None (ByIndex 0) = 37"
proof -
  let ?d = "\<lparr>tableRef = None, listRef = None, documentMode = False\<rparr>"
  let ?p = "\<lparr>data = [''x''], itemKey = None, rowHeight = None, estimatedRowHeight = 37\<rparr>"
  show ?thesis
    using detached_list_noop [of ?d 3 True initial "\<lambda>u k. None" example_context ?p 0 undefined]
      detached_list_noop [of ?d 3 False initial "\<lambda>u k. None" example_context ?p 0 undefined]
    by (simp add: defaultSize_def js_or_def)
qed

section \<open>Column widths\<close>

text \<open>
  C2. For a mounted container, every flexible column receives
  \<open>max(minColumnWidth, floor((containerWidth - fixedTotalWidth) / count(flexibleColumns)))\<close>,
  so no width is below the minimum. A container of width 1000 with fixed total 200, three
  flexible columns and minimum 80 gives 266 to each, and the widths with the fixed total
  stay within the container; a container of width 100 with fixed total 200, two flexible
  columns and minimum 80 gives 80 to each.
\<close>

theorem calculateColumnWidths_allocation:
  "calculateColumnWidths (Some e) flex fixedTotal minW cols =
     replicate (length flex) (max minW ((el_width e - fixedTotal) div int (length flex))) \<and>
   (\<forall>w \<in> set (calculateColumnWidths (Some e) flex fixedTotal minW cols). minW \<le> w) \<and>
   (el_width e = 1000 \<and> fixedTotal = 200 \<and> length flex = 3 \<and> minW = 80 \<longrightarrow>
      calculateColumnWidths (Some e) flex fixedTotal minW cols = [266, 266, 266] \<and>
      fixedTotal + sum_list (calculateColumnWidths (Some e) flex fixedTotal minW cols)
        \<le> el_width e) \<and>
   (el_width e = 100 \<and> fixedTotal = 200 \<and> length flex = 2 \<and> minW = 80 \<longrightarrow>
      calculateColumnWidths (Some e) flex fixedTotal minW cols = [80, 80])"
proof -
  have r: "calculateColumnWidths (Some e) flex fixedTotal minW cols =
     replicate (length flex) (max minW ((el_width e - fixedTotal) div int (length flex)))"
    by (simp add: calculateColumnWidths_def Let_def map_replicate_const)
  show ?thesis unfolding r by (auto simp: numeral_3_eq_3 numeral_2_eq_2)
qed

theorem calculateColumnWidths_allocation_witness:
  "calculateColumnWidths (tableRef (example_document 1200 1000)) (remainingCols example_context)
     200 80 (columns example_context) = [266, 266, 266] \<and>
   calculateColumnWidths (tableRef (example_document 100 100))
     (take 2 (remainingCols example_context)) 200 80 (columns example_context) = [80, 80]"
proof -
  let ?e = "\<lambda>w. \<lparr>scrollWidth = w, clientWidth = w, el_width = w,
      parentElement = Some \<lparr>scrollWidth = w, clientWidth = w\<rparr>,
      el_children = [Node 32 NaN [], Node 74 NaN [Node 37 (Fin 4) [], Node 37 (Fin 5) []]]\<rparr>"
  have a: "tableRef (example_document 1200 1000) = Some ((?e 1000)\<lparr>scrollWidth := 1200,
      parentElement := Some \<lparr>scrollWidth = 1200, clientWidth = 1000\<rparr>\<rparr>)"
    by (simp add: example_document_def)
  have b: "tableRef (example_document 100 100) = Some (?e 100)"
    by (simp add: example_document_def)
  show ?thesis
    unfolding a b
    using calculateColumnWidths_allocation [of "(?e 1000)\<lparr>scrollWidth := 1200,
        parentElement := Some \<lparr>scrollWidth = 1200, clientWidth = 1000\<rparr>\<rparr>"
        "remainingCols example_context" 200 80 "columns example_context"]
      calculateColumnWidths_allocation [of "?e 100" "take 2 (remainingCols example_context)"
        200 80 "columns example_context"]
    by (simp add: example_context_def)
qed

text \<open>
  C6. When the computed vector equals the vector of the closure element-wise,
  \<open>pixelWidthsHelper\<close> leaves the state as it is: no setter is called. Run by the closure of
  the current render it publishes the computed vector, and a second run on a container of
  the same width, by the closure of the render that followed, computes the same vector
  and changes nothing.
\<close>

theorem pixelWidthsHelper_stable:
  "(arraysMatch (calculateColumnWidths (tableRef d) (remainingCols ctx) (fixedWidth ctx)
        (minColumnWidth ctx) (columns ctx)) captured \<longrightarrow>
      pixelWidthsHelper ctx captured d s = s) \<and>
   (map_option el_width (tableRef d') = map_option el_width (tableRef d) \<longrightarrow>
      pixelWidths (pixelWidthsHelper ctx (pixelWidths s) d s) =
        calculateColumnWidths (tableRef d) (remainingCols ctx) (fixedWidth ctx)
          (minColumnWidth ctx) (columns ctx) \<and>
      calculateColumnWidths (tableRef d') (remainingCols ctx) (fixedWidth ctx)
          (minColumnWidth ctx) (columns ctx) =
        calculateColumnWidths (tableRef d) (remainingCols ctx) (fixedWidth ctx)
          (minColumnWidth ctx) (columns ctx) \<and>
      pixelWidthsHelper ctx (pixelWidths (pixelWidthsHelper ctx (pixelWidths s) d s)) d'
          (pixelWidthsHelper ctx (pixelWidths s) d s) =
        pixelWidthsHelper ctx (pixelWidths s) d s)"
proof -
  have w: "calculateColumnWidths (tableRef d') a b c e = calculateColumnWidths (tableRef d) a b c e"
    if "map_option el_width (tableRef d') = map_option el_width (tableRef d)" for a b c e
    using that by (cases "tableRef d"; cases "tableRef d'") (simp_all add: calculateColumnWidths_def)
  show ?thesis
    by (auto simp: pixelWidthsHelper_def arraysMatch_def list_all2_eq [symmetric] Let_def
        setPixelWidths_def w)
qed

theorem pixelWidthsHelper_stable_witness:
  "pixelWidthsHelper example_context [] (example_document 1200 1000) initial =
     initial\<lparr>pixelWidths := [266, 266, 266], updates := 1\<rparr> \<and>
   pixelWidthsHelper example_context [266, 266, 266] (example_document 800 1000)
     (initial\<lparr>pixelWidths := [266, 266, 266], updates := 1\<rparr>) =
     initial\<lparr>pixelWidths := [266, 266, 266], updates := 1\<rparr>"
proof -
  have first: "pixelWidthsHelper example_context [] (example_document 1200 1000) initial =
      initial\<lparr>pixelWidths := [266, 266, 266], updates := 1\<rparr>"
    by (simp add: pixelWidthsHelper_def calculateColumnWidths_def arraysMatch_def
        setPixelWidths_def example_context_def example_document_def initial_def)
  have same: "map_option el_width (tableRef (example_document 800 1000)) =
      map_option el_width (tableRef (example_document 1200 1000))"
    by (simp add: example_document_def)
  have empty: "pixelWidths initial = []"
    by (simp add: initial_def)
  from pixelWidthsHelper_stable [of "example_document 1200 1000" example_context undefined
      initial "example_document 800 1000"] same
  have "pixelWidthsHelper example_context
      (pixelWidths (pixelWidthsHelper example_context (pixelWidths initial)
         (example_document 1200 1000) initial))
      (example_document 800 1000)
      (pixelWidthsHelper example_context (pixelWidths initial) (example_document 1200 1000) initial) =
    pixelWidthsHelper example_context (pixelWidths initial) (example_document 1200 1000) initial"
    by blast
  then show ?thesis
    unfolding empty first by (simp add: first)
qed

section \<open>The row-width mode\<close>

text \<open>
  C1, as amended. Every recomputation of the mode after a resize publishes
  \<open>useRowWidth = (scrollWidth \<le> clientWidth)\<close> of the parent of the table element (true
  when the table element is not attached), and the first computation after mounting
  compares the two widths of the table element itself. The flag is therefore false for a
  scroll width of 1200 in a client width of 1000, where the content overflows, and true
  for a scroll width of 800 in a client width of 1000, where the content fits.
\<close>

theorem useRowWidth_recomputed:
  "(tableRef d = Some t \<and> parentElement t = Some pe \<longrightarrow>
      run_callback ctx d RowWidthTimer s =
        Inr (s\<lparr>useRowWidth := scrollWidth pe \<le> clientWidth pe, updates := Suc (updates s)\<rparr>)) \<and>
   (tableRef d = None \<longrightarrow>
      run_callback ctx d RowWidthTimer s =
        Inr (s\<lparr>useRowWidth := True, updates := Suc (updates s)\<rparr>)) \<and>
   (tableRef d = Some t \<and> mount ctx d = Inr s0 \<longrightarrow>
      useRowWidth s0 = (scrollWidth t \<le> clientWidth t)) \<and>
   (tableRef d = Some t \<and> parentElement t = Some pe \<and> scrollWidth pe = 1200 \<and>
      clientWidth pe = 1000 \<longrightarrow>
      map_sum id useRowWidth (run_callback ctx d RowWidthTimer s) = Inr False) \<and>
   (tableRef d = Some t \<and> parentElement t = Some pe \<and> scrollWidth pe = 800 \<and>
      clientWidth pe = 1000 \<longrightarrow>
      map_sum id useRowWidth (run_callback ctx d RowWidthTimer s) = Inr True)"
proof -
  have first: "useRowWidth s0 = (scrollWidth t \<le> clientWidth t)"
    if "tableRef d = Some t" and "mount ctx d = Inr s0"
    using that
    by (auto simp: mount_def initial_def pixelWidthsHelper_def setPixelWidths_def
        setUseRowWidth_def setTimeout_def addEventListener_def Let_def split: if_splits)
  have later: "run_callback ctx d RowWidthTimer s =
      Inr (s\<lparr>useRowWidth := scrollWidth pe \<le> clientWidth pe, updates := Suc (updates s)\<rparr>)"
    if "tableRef d = Some t" and "parentElement t = Some pe"
    using that by (simp add: shouldUseRowWidth_timer_def setUseRowWidth_def)
  have detached: "run_callback ctx d RowWidthTimer s =
      Inr (s\<lparr>useRowWidth := True, updates := Suc (updates s)\<rparr>)"
    if "tableRef d = None"
    using that by (simp add: shouldUseRowWidth_timer_def setUseRowWidth_def NO_PARENT_def)
  show ?thesis
    using first later detached by auto
qed

theorem useRowWidth_recomputed_witness:
  "run_callback example_context (example_document 640 480) RowWidthTimer initial =
     Inr (initial\<lparr>useRowWidth := False, updates := 1\<rparr>) \<and>
   map_sum id useRowWidth
     (run_callback example_context (example_document 800 1000) RowWidthTimer initial) = Inr True"
proof -
  let ?t = "\<lambda>sw cw. \<lparr>scrollWidth = sw, clientWidth = cw, el_width = cw,
      parentElement = Some \<lparr>scrollWidth = sw, clientWidth = cw\<rparr>,
      el_children = [Node 32 NaN [], Node 74 NaN [Node 37 (Fin 4) [], Node 37 (Fin 5) []]]\<rparr>"
  have t: "tableRef (example_document sw cw) = Some (?t sw cw)" for sw cw
    by (simp add: example_document_def)
  have p: "parentElement (?t sw cw) = Some \<lparr>scrollWidth = sw, clientWidth = cw\<rparr>" for sw cw
    by simp
  show ?thesis
    using useRowWidth_recomputed [of "example_document 640 480" "?t 640 480"
        "\<lparr>scrollWidth = 640, clientWidth = 480\<rparr>" example_context initial undefined]
      useRowWidth_recomputed [of "example_document 800 1000" "?t 800 1000"
        "\<lparr>scrollWidth = 800, clientWidth = 1000\<rparr>" example_context initial undefined]
      t [of 640 480] t [of 800 1000]
    by (simp add: initial_def)
qed

text \<open>
  C1 as stated fails: it has the flag true for the natural-width mode and gives a scroll
  width of 1200 in a client width of 1000 as that mode, but there the recomputation
  publishes false, and it publishes true for 800 in 1000.
\<close>

theorem useRowWidth_polarity_counterexample:
  "shouldUseRowWidth_timer (example_document 1200 1000) initial =
     Inr (initial\<lparr>useRowWidth := False, updates := 1\<rparr>) \<and>
   shouldUseRowWidth_timer (example_document 800 1000) initial =
     Inr (initial\<lparr>useRowWidth := True, updates := 1\<rparr>)"
  by (simp add: shouldUseRowWidth_timer_def example_document_def setUseRowWidth_def initial_def)

section \<open>The timers that are pending\<close>

lemma timers_tracked_refs_le:
  "timers_tracked s \<Longrightarrow> timer_ref s cb = Some r \<Longrightarrow> r \<le> lastTimer s"
  by (cases cb) (auto simp: timers_tracked_def)

lemma timers_trackedI:
  assumes "\<And>t dl cb. (t, dl, cb) \<in> set (timers s) \<Longrightarrow> 0 < t \<and> t \<le> lastTimer s"
    and "\<And>t dl cb r. (t, dl, cb) \<in> set (timers s) \<Longrightarrow> timer_ref s cb = Some r \<Longrightarrow> t = r"
    and "distinct (map fst (timers s))"
    and "\<And>cb r. timer_ref s cb = Some r \<Longrightarrow> r \<le> lastTimer s"
  shows "timers_tracked s"
proof -
  have "resizeRef s \<le> lastTimer s" using assms(4) [of RowWidthTimer] by simp
  moreover have "pixelWidthsRef s \<le> lastTimer s" using assms(4) [of "PixelWidthsTimer []"] by simp
  moreover have "timeoutRef s \<le> lastTimer s" using assms(4) [of ResetTimer] by simp
  ultimately show ?thesis
    using assms(1-3) by (auto simp: timers_tracked_def list_all_iff split: option.splits)
qed

lemma timers_tracked_pos:
  "timers_tracked s \<Longrightarrow> (t, dl, cb) \<in> set (timers s) \<Longrightarrow> 0 < t"
  by (auto simp: timers_tracked_def list_all_iff)

lemma timers_tracked_le:
  "timers_tracked s \<Longrightarrow> (t, dl, cb) \<in> set (timers s) \<Longrightarrow> t \<le> lastTimer s"
  by (auto simp: timers_tracked_def list_all_iff)

lemma timers_tracked_ref:
  "timers_tracked s \<Longrightarrow> (t, dl, cb) \<in> set (timers s) \<Longrightarrow> timer_ref s cb = Some r \<Longrightarrow> t = r"
  by (auto simp: timers_tracked_def list_all_iff split: option.splits)

lemma timers_tracked_distinct: "timers_tracked s \<Longrightarrow> distinct (map fst (timers s))"
  by (simp add: timers_tracked_def)

text \<open>
  The pattern shared by the three debounced callbacks: clear the timer that the ref holds,
  arm a new one, keep its id in the ref.
\<close>

lemma tracked_rearm:
  assumes tr: "timers_tracked s"
    and T: "timers s' = (if r \<noteq> 0 then filter (\<lambda>e. fst e \<noteq> r) (timers s) else timers s)
              @ [(Suc (lastTimer s), dl, cb)]"
    and L: "lastTimer s' = Suc (lastTimer s)"
    and R: "\<And>cb' x. timer_ref s' cb' = Some x \<Longrightarrow>
              (x = Suc (lastTimer s) \<and> timer_ref s cb' = Some r) \<or> timer_ref s cb' = Some x"
    and N: "timer_ref s' cb = Some (Suc (lastTimer s))"
  shows "timers_tracked s'"
proof (rule timers_trackedI)
  let ?new = "(Suc (lastTimer s), dl, cb)"
  have mem: "e = ?new \<or> (e \<in> set (timers s) \<and> (r \<noteq> 0 \<longrightarrow> fst e \<noteq> r))"
    if "e \<in> set (timers s')" for e
    using that by (auto simp: T split: if_splits)
  show "0 < t \<and> t \<le> lastTimer s'" if "(t, dl', cb') \<in> set (timers s')" for t dl' cb'
    using mem [OF that] timers_tracked_pos [OF tr, of t dl' cb']
      timers_tracked_le [OF tr, of t dl' cb']
    by (auto simp: L)
  show "t = x" if in': "(t, dl', cb') \<in> set (timers s')" and ref': "timer_ref s' cb' = Some x"
    for t dl' cb' x
  proof -
    from mem [OF in'] show ?thesis
    proof
      assume "(t, dl', cb') = ?new"
      with ref' N show ?thesis by simp
    next
      assume old: "(t, dl', cb') \<in> set (timers s) \<and> (r \<noteq> 0 \<longrightarrow> fst (t, dl', cb') \<noteq> r)"
      have "timer_ref s cb' \<noteq> Some r"
        using old timers_tracked_pos [OF tr, of t dl' cb']
          timers_tracked_ref [OF tr, of t dl' cb' r]
        by auto
      with R [OF ref'] have "timer_ref s cb' = Some x" by blast
      with old show ?thesis using timers_tracked_ref [OF tr] by blast
    qed
  qed
  have "Suc (lastTimer s) \<notin> fst ` set (timers s)"
    using timers_tracked_le [OF tr] by fastforce
  then show "distinct (map fst (timers s'))"
    using timers_tracked_distinct [OF tr]
    by (auto simp: T distinct_map_filter)
  show "x \<le> lastTimer s'" if "timer_ref s' cb' = Some x" for cb' x
    using R [OF that] timers_tracked_refs_le [OF tr, of cb' x] by (auto simp: L)
qed

text \<open>A step that leaves the timers and the refs alone keeps them tracked.\<close>

lemma tracked_frame:
  assumes "timers_tracked s"
    and "timers s' = timers s" and "lastTimer s' = lastTimer s"
    and "resizeRef s' = resizeRef s" and "pixelWidthsRef s' = pixelWidthsRef s"
    and "timeoutRef s' = timeoutRef s"
  shows "timers_tracked s'"
proof -
  have "timer_ref s' cb = timer_ref s cb" for cb
    using assms(4-6) by (cases cb) simp_all
  with assms show ?thesis by (simp add: timers_tracked_def)
qed

lemma tracked_clearTimeout: "timers_tracked s \<Longrightarrow> timers_tracked (clearTimeout t s)"
proof -
  assume tr: "timers_tracked s"
  have "timer_ref (clearTimeout t s) cb = timer_ref s cb" for cb
    by (cases cb) (simp_all add: clearTimeout_def)
  with tr show ?thesis
    by (auto simp: timers_tracked_def clearTimeout_def list_all_iff distinct_map_filter)
qed

lemma shouldUseRowWidth_eq:
  "shouldUseRowWidth s =
     s\<lparr>timers := (if resizeRef s \<noteq> 0 then filter (\<lambda>e. fst e \<noteq> resizeRef s) (timers s)
                    else timers s) @ [(Suc (lastTimer s), 50, RowWidthTimer)],
       lastTimer := Suc (lastTimer s), resizeRef := Suc (lastTimer s)\<rparr>"
  by (simp add: shouldUseRowWidth_def setTimeout_def clearTimeout_def Let_def)

lemma calculatepixelWidths_eq:
  "calculatepixelWidths s =
     s\<lparr>timers := (if pixelWidthsRef s \<noteq> 0
                    then filter (\<lambda>e. fst e \<noteq> pixelWidthsRef s) (timers s)
                    else timers s) @ [(Suc (lastTimer s), 50, PixelWidthsTimer (pixelWidths s))],
       lastTimer := Suc (lastTimer s), pixelWidthsRef := Suc (lastTimer s)\<rparr>"
  by (simp add: calculatepixelWidths_def setTimeout_def clearTimeout_def Let_def)

lemma clearSizeCache_arm_eq:
  "listRef d = Some l \<Longrightarrow>
   clearSizeCache d dataIndex False s =
     s\<lparr>timers := (if timeoutRef s \<noteq> 0 then filter (\<lambda>e. fst e \<noteq> timeoutRef s) (timers s)
                    else timers s) @ [(Suc (lastTimer s), 50, ResetTimer)],
       lastTimer := Suc (lastTimer s), timeoutRef := Suc (lastTimer s)\<rparr>"
  by (simp add: clearSizeCache_def setTimeout_def clearTimeout_def Let_def)

lemma clearSizeCache_forced_eq:
  "listRef d = Some l \<Longrightarrow>
   clearSizeCache d dataIndex True s =
     s\<lparr>timers := (if timeoutRef s \<noteq> 0 then filter (\<lambda>e. fst e \<noteq> timeoutRef s) (timers s)
                    else timers s),
       resets := resets s @ [Fin (int dataIndex + 1)]\<rparr>"
  by (simp add: clearSizeCache_def resetAfterIndex_def clearTimeout_def Let_def)

lemma tracked_shouldUseRowWidth:
  assumes "timers_tracked s"
  shows "timers_tracked (shouldUseRowWidth s)"
proof (rule tracked_rearm [OF assms, where r = "resizeRef s" and cb = RowWidthTimer and dl = 50])
  show "timer_ref (shouldUseRowWidth s) cb' = Some x \<Longrightarrow>
      (x = Suc (lastTimer s) \<and> timer_ref s cb' = Some (resizeRef s)) \<or> timer_ref s cb' = Some x"
    for cb' x
    by (cases cb') (auto simp: shouldUseRowWidth_eq)
qed (simp_all add: shouldUseRowWidth_eq)

lemma tracked_calculatepixelWidths:
  assumes "timers_tracked s"
  shows "timers_tracked (calculatepixelWidths s)"
proof (rule tracked_rearm [OF assms, where r = "pixelWidthsRef s"
      and cb = "PixelWidthsTimer (pixelWidths s)" and dl = 50])
  show "timer_ref (calculatepixelWidths s) cb' = Some x \<Longrightarrow>
      (x = Suc (lastTimer s) \<and> timer_ref s cb' = Some (pixelWidthsRef s)) \<or>
      timer_ref s cb' = Some x"
    for cb' x
    by (cases cb') (auto simp: calculatepixelWidths_eq)
qed (simp_all add: calculatepixelWidths_eq)

lemma tracked_clearSizeCache:
  assumes "timers_tracked s"
  shows "timers_tracked (clearSizeCache d dataIndex forceUpdate s)"
proof (cases "listRef d")
  case None
  with assms show ?thesis by (simp add: clearSizeCache_def)
next
  case (Some l)
  show ?thesis
  proof (cases forceUpdate)
    case True
    have "timers_tracked (if timeoutRef s \<noteq> 0 then clearTimeout (timeoutRef s) s else s)"
      using assms by (simp add: tracked_clearTimeout)
    then show ?thesis
      using Some True
      by (auto simp: clearSizeCache_def Let_def resetAfterIndex_def elim: tracked_frame)
  next
    case False
    have "timers_tracked (clearSizeCache d dataIndex False s)"
    proof (rule tracked_rearm [OF assms, where r = "timeoutRef s" and cb = ResetTimer and dl = 50])
      show "timer_ref (clearSizeCache d dataIndex False s) cb' = Some x \<Longrightarrow>
          (x = Suc (lastTimer s) \<and> timer_ref s cb' = Some (timeoutRef s)) \<or>
          timer_ref s cb' = Some x"
        for cb' x
        by (cases cb') (auto simp: clearSizeCache_arm_eq [OF Some])
    qed (simp_all add: clearSizeCache_arm_eq [OF Some])
    with False show ?thesis by simp
  qed
qed

lemma tracked_listeners_fold:
  "timers_tracked s \<Longrightarrow> timers_tracked (foldl (\<lambda>acc l. run_listener l acc) s ls)"
proof (induction ls arbitrary: s)
  case Nil
  then show ?case by simp
next
  case (Cons l ls)
  have "timers_tracked (run_listener l s)"
    using Cons.prems by (cases l) (simp_all add: tracked_shouldUseRowWidth tracked_calculatepixelWidths)
  then show ?case using Cons.IH by simp
qed

lemma tracked_dispatch_resize: "timers_tracked s \<Longrightarrow> timers_tracked (dispatch_resize s)"
  by (simp add: dispatch_resize_def tracked_listeners_fold)

lemma tracked_run_callback:
  assumes "timers_tracked s" and "run_callback ctx d cb s = Inr s'"
  shows "timers_tracked s'"
proof (cases cb)
  case ResetTimer
  with assms show ?thesis
    by (auto simp: clearSizeCache_timer_def resetAfterIndex_def Let_def
        split: sum.splits option.splits elim: tracked_frame)
next
  case RowWidthTimer
  with assms show ?thesis
    by (auto simp: shouldUseRowWidth_timer_def setUseRowWidth_def
        split: option.splits elim: tracked_frame)
next
  case (PixelWidthsTimer captured)
  with assms show ?thesis
    by (auto simp: pixelWidthsHelper_def setPixelWidths_def Let_def
        split: if_splits elim: tracked_frame)
next
  case KickTimer
  with assms show ?thesis by (auto simp: tracked_dispatch_resize)
qed

lemma tracked_step: "timers_tracked s \<Longrightarrow> timers_tracked (step ctx d e s)"
proof (cases e)
  case Resize
  assume "timers_tracked s"
  with Resize show ?thesis by (simp add: tracked_dispatch_resize)
next
  case (Fire t)
  assume tr: "timers_tracked s"
  show ?thesis
  proof (cases "fire ctx d t s")
    case (Inl err)
    with Fire tr show ?thesis by (simp add: tracked_clearTimeout)
  next
    case (Inr s')
    then have "timers_tracked s'"
      using tr tracked_run_callback [OF tracked_clearTimeout [OF tr, of t]]
      by (auto simp: fire_def split: option.splits)
    with Fire Inr show ?thesis by simp
  qed
next
  case (ClearSizeCache i f)
  assume "timers_tracked s"
  with ClearSizeCache show ?thesis by (simp add: tracked_clearSizeCache)
qed

lemma tracked_run: "timers_tracked s \<Longrightarrow> timers_tracked (run ctx evs s)"
  by (induction evs arbitrary: s) (auto simp: tracked_step)

lemma listeners_fold:
  "listeners (foldl (\<lambda>acc l. run_listener l acc) s ls) = listeners s"
proof (induction ls arbitrary: s)
  case Nil
  show ?case by simp
next
  case (Cons l ls)
  have "listeners (run_listener l s) = listeners s"
    by (cases l) (simp_all add: shouldUseRowWidth_eq calculatepixelWidths_eq)
  with Cons.IH show ?case by simp
qed

lemma listeners_run_callback:
  "run_callback ctx d cb s = Inr s' \<Longrightarrow> listeners s' = listeners s"
  by (cases cb)
    (auto simp: clearSizeCache_timer_def resetAfterIndex_def shouldUseRowWidth_timer_def
      setUseRowWidth_def pixelWidthsHelper_def setPixelWidths_def Let_def dispatch_resize_def
      listeners_fold split: sum.splits option.splits if_splits)

lemma listeners_clearSizeCache: "listeners (clearSizeCache d i f s) = listeners s"
proof (cases "listRef d")
  case None
  then show ?thesis by (simp add: clearSizeCache_def)
next
  case (Some l)
  then show ?thesis
    by (cases f) (simp_all add: clearSizeCache_arm_eq clearSizeCache_forced_eq)
qed

lemma listeners_step: "listeners (step ctx d e s) = listeners s"
proof (cases e)
  case Resize
  then show ?thesis by (simp add: dispatch_resize_def listeners_fold)
next
  case (Fire t)
  show ?thesis
  proof (cases "fire ctx d t s")
    case (Inl err)
    with Fire show ?thesis by (simp add: clearTimeout_def)
  next
    case (Inr s')
    then have "listeners s' = listeners s"
      using listeners_run_callback [of ctx d _ "clearTimeout t s" s']
      by (auto simp: fire_def clearTimeout_def split: option.splits)
    with Fire Inr show ?thesis by simp
  qed
next
  case (ClearSizeCache i f)
  then show ?thesis by (simp add: listeners_clearSizeCache)
qed

lemma listeners_run: "listeners (run ctx evs s) = listeners s"
  by (induction evs arbitrary: s) (auto simp: listeners_step)

lemma mount_state:
  assumes "mount ctx d = Inr s0"
  shows "timers_tracked s0" and "listeners s0 = [ShouldUseRowWidth, CalculatepixelWidths]"
  using assms
  by (auto simp: mount_def initial_def pixelWidthsHelper_def setPixelWidths_def
      setUseRowWidth_def setTimeout_def addEventListener_def timers_tracked_def Let_def
      split: option.splits if_splits)

lemma reachable_state:
  assumes "mount ctx d = Inr s0"
  shows "timers_tracked (run ctx evs s0)"
    and "listeners (run ctx evs s0) = [ShouldUseRowWidth, CalculatepixelWidths]"
  using mount_state [OF assms] by (simp_all add: tracked_run listeners_run)

lemma map_of_fresh: "k \<notin> fst ` set xs \<Longrightarrow> map_of (xs @ [(k, v)]) k = Some v"
  by (induction xs) auto

lemma map_of_append_None: "map_of xs k = None \<Longrightarrow> map_of (xs @ ys) k = map_of ys k"
  by (simp add: map_add_def)

lemma fresh_timer: "timers_tracked s \<Longrightarrow> set xs \<subseteq> set (timers s) \<Longrightarrow> Suc (lastTimer s) \<notin> fst ` set xs"
  using timers_tracked_le by fastforce

text \<open>The timers of one callback that are pending, when the ref of the callback is known.\<close>

lemma pending_of_ref:
  assumes tr: "timers_tracked s" and ref: "\<And>cb. P cb \<Longrightarrow> timer_ref s cb = Some r"
  shows "filter (\<lambda>e. P (snd (snd e)))
           (if r \<noteq> 0 then filter (\<lambda>e. fst e \<noteq> r) (timers s) else timers s) = []"
proof -
  have "\<not> P cb" if "(t, dl, cb) \<in> set (timers s)" and "r \<noteq> 0 \<longrightarrow> t \<noteq> r" for t dl cb
    using that timers_tracked_pos [OF tr that(1)] timers_tracked_ref [OF tr that(1), of r] ref [of cb]
    by auto
  then show ?thesis by (auto simp: filter_empty_conv)
qed

section \<open>Invalidating the size cache\<close>

text \<open>
  C4, as amended. In every state that a mounted component reaches, a call of
  \<open>clearSizeCache\<close> with the list attached does the following. Forced: the engine's
  \<open>resetAfterIndex\<close> is called within the call, with the requested data index plus one
  (the position of the row in the engine, whose position 0 is the header), and no
  invalidation timer stays pending. Not forced: nothing is reset within the call; the
  pending invalidation timer, if any, is replaced by a fresh one of 50 ms, which is then
  the only one pending. When that timer fires, \<open>resetAfterIndex\<close> is called with the
  \<open>data-index\<close> of the first child of the second child of the table element, plus one,
  whatever the index requested was.
\<close>

theorem clearSizeCache_invalidates:
  assumes "mount ctx d0 = Inr s0" and "s = run ctx evs s0" and "listRef d = Some l"
  shows "resets (clearSizeCache d i True s) = resets s @ [Fin (int i + 1)] \<and>
    filter (\<lambda>e. snd (snd e) = ResetTimer) (timers (clearSizeCache d i True s)) = [] \<and>
    (let s' = clearSizeCache d i False s in
       resets s' = resets s \<and>
       filter (\<lambda>e. snd (snd e) = ResetTimer) (timers s') = [(timeoutRef s', 50, ResetTimer)] \<and>
       lastTimer s < timeoutRef s' \<and>
       (\<forall>d'. fire ctx d' (timeoutRef s') s' =
          clearSizeCache_timer d' (clearTimeout (timeoutRef s') s')) \<and>
       (\<forall>d' l' t body r.
          listRef d' = Some l' \<and> tableRef d' = Some t \<and> js_nth (el_children t) 1 = Some body \<and>
          js_nth (children body) 0 = Some r \<longrightarrow>
          map_sum id resets (fire ctx d' (timeoutRef s') s') =
            Inr (resets s @ [js_add (parsed_index r) 1])))"
proof -
  have tr: "timers_tracked s"
    using reachable_state(1) [OF assms(1)] assms(2) by simp
  let ?old = "if timeoutRef s \<noteq> 0 then filter (\<lambda>e. fst e \<noteq> timeoutRef s) (timers s) else timers s"
  have none: "filter (\<lambda>e. snd (snd e) = ResetTimer) ?old = []"
    by (rule pending_of_ref [OF tr]) simp
  have forced: "resets (clearSizeCache d i True s) = resets s @ [Fin (int i + 1)]"
    "filter (\<lambda>e. snd (snd e) = ResetTimer) (timers (clearSizeCache d i True s)) = []"
    using none by (simp_all add: clearSizeCache_forced_eq [OF assms(3)])
  let ?s' = "clearSizeCache d i False s"
  have ref: "timeoutRef ?s' = Suc (lastTimer s)"
    and tim: "timers ?s' = ?old @ [(Suc (lastTimer s), 50, ResetTimer)]"
    and res: "resets ?s' = resets s"
    by (simp_all add: clearSizeCache_arm_eq [OF assms(3)])
  have pend: "filter (\<lambda>e. snd (snd e) = ResetTimer) (timers ?s') = [(timeoutRef ?s', 50, ResetTimer)]"
    using none by (simp add: tim ref)
  have "Suc (lastTimer s) \<notin> fst ` set ?old"
    by (rule fresh_timer [OF tr]) auto
  then have look: "map_of (timers ?s') (timeoutRef ?s') = Some (50, ResetTimer)"
    unfolding tim ref by (rule map_of_fresh)
  have fire: "fire ctx d' (timeoutRef ?s') ?s' =
      clearSizeCache_timer d' (clearTimeout (timeoutRef ?s') ?s')" for d'
    by (simp add: fire_def look)
  have first: "map_sum id resets (fire ctx d' (timeoutRef ?s') ?s') =
      Inr (resets s @ [js_add (parsed_index r) 1])"
    if "listRef d' = Some l'" "tableRef d' = Some t" "js_nth (el_children t) 1 = Some body"
      "js_nth (children body) 0 = Some r" for d' l' t body r
    using that
    by (simp add: fire clearSizeCache_timer_def first_mounted_index_def resetAfterIndex_def
        clearTimeout_def res)
  show ?thesis
    unfolding Let_def using forced res pend ref fire first by auto
qed

theorem clearSizeCache_invalidates_witness:
  "mount example_context (example_document 1200 1000) =
     Inr \<lparr>resizeRef = 0, timeoutRef = 0, pixelWidthsRef = 0, pixelWidths = [266, 266, 266],
          useRowWidth = False, updates = 2, timers = [(1, 0, KickTimer)], lastTimer = 1,
          listeners = [ShouldUseRowWidth, CalculatepixelWidths], resets = []\<rparr> \<and>
   resets (clearSizeCache (example_document 1200 1000) 9 True
     (run example_context [(example_document 1200 1000, Resize)]
        \<lparr>resizeRef = 0, timeoutRef = 0, pixelWidthsRef = 0, pixelWidths = [266, 266, 266],
         useRowWidth = False, updates = 2, timers = [(1, 0, KickTimer)], lastTimer = 1,
         listeners = [ShouldUseRowWidth, CalculatepixelWidths], resets = []\<rparr>)) = [Fin 10] \<and>
   map_sum id resets
     (fire example_context (example_document 1200 1000) 4
        (clearSizeCache (example_document 1200 1000) 9 False
           (run example_context [(example_document 1200 1000, Resize)]
              \<lparr>resizeRef = 0, timeoutRef = 0, pixelWidthsRef = 0, pixelWidths = [266, 266, 266],
               useRowWidth = False, updates = 2, timers = [(1, 0, KickTimer)], lastTimer = 1,
               listeners = [ShouldUseRowWidth, CalculatepixelWidths], resets = []\<rparr>))) =
     Inr [Fin 5]"
proof -
  let ?d = "example_document 1200 1000"
  let ?s0 = "\<lparr>resizeRef = 0, timeoutRef = 0, pixelWidthsRef = 0, pixelWidths = [266, 266, 266],
     useRowWidth = False, updates = 2, timers = [(1, 0, KickTimer)], lastTimer = 1,
     listeners = [ShouldUseRowWidth, CalculatepixelWidths], resets = []\<rparr>"
  have m: "mount example_context ?d = Inr ?s0"
    by (simp add: mount_def example_context_def example_document_def initial_def
        pixelWidthsHelper_def calculateColumnWidths_def arraysMatch_def setPixelWidths_def
        setUseRowWidth_def setTimeout_def addEventListener_def Let_def)
  have l: "listRef ?d = Some \<lparr>itemMetadataMap = Map.empty\<rparr>"
    by (simp add: example_document_def)
  have r: "run example_context [(?d, Resize)] ?s0 =
      ?s0\<lparr>timers := [(1, 0, KickTimer), (2, 50, RowWidthTimer),
                      (3, 50, PixelWidthsTimer [266, 266, 266])],
          lastTimer := 3, resizeRef := 2, pixelWidthsRef := 3\<rparr>"
    by (simp add: dispatch_resize_def shouldUseRowWidth_eq calculatepixelWidths_eq)
  let ?s = "run example_context [(?d, Resize)] ?s0"
  let ?s' = "clearSizeCache ?d 9 False ?s"
  have t: "timeoutRef ?s' = 4"
    unfolding r by (simp add: clearSizeCache_arm_eq [OF l])
  have e: "resets ?s = []"
    unfolding r by simp
  have tab: "tableRef ?d = Some \<lparr>scrollWidth = 1200, clientWidth = 1000, el_width = 1000,
      parentElement = Some \<lparr>scrollWidth = 1200, clientWidth = 1000\<rparr>,
      el_children = [Node 32 NaN [], Node 74 NaN [Node 37 (Fin 4) [], Node 37 (Fin 5) []]]\<rparr>"
    by (simp add: example_document_def)
  note T = clearSizeCache_invalidates [OF m refl l, where evs = "[(?d, Resize)]" and i = 9,
      unfolded Let_def]
  from T have "resets (clearSizeCache ?d 9 True ?s) = resets ?s @ [Fin (int 9 + 1)]"
    by (rule conjunct1)
  then have c1: "resets (clearSizeCache ?d 9 True ?s) = [Fin 10]"
    unfolding e by simp
  let ?body = "Node 74 NaN [Node 37 (Fin 4) [], Node 37 (Fin 5) []]"
  have j1: "js_nth (el_children \<lparr>scrollWidth = 1200, clientWidth = 1000, el_width = 1000,
      parentElement = Some \<lparr>scrollWidth = 1200, clientWidth = 1000\<rparr>,
      el_children = [Node 32 NaN [], ?body]\<rparr>) 1 = Some ?body"
    by (simp add: js_nth_def)
  have j2: "js_nth (children ?body) 0 = Some (Node 37 (Fin 4) [])"
    by (simp add: js_nth_def)
  from T have "\<forall>d' l' t body r.
      listRef d' = Some l' \<and> tableRef d' = Some t \<and> js_nth (el_children t) 1 = Some body \<and>
      js_nth (children body) 0 = Some r \<longrightarrow>
      map_sum id resets (fire example_context d' (timeoutRef ?s') ?s') =
        Inr (resets ?s @ [js_add (parsed_index r) 1])"
    by blast
  from this [rule_format, OF conjI [OF l conjI [OF tab conjI [OF j1 j2]]]]
  have "map_sum id resets (fire example_context ?d (timeoutRef ?s') ?s') =
      Inr (resets ?s @ [js_add (parsed_index (Node 37 (Fin 4) [])) 1])" .
  then have c2: "map_sum id resets (fire example_context ?d 4 ?s') = Inr [Fin 5]"
    unfolding t e by simp
  from m c1 c2 show ?thesis by blast
qed

text \<open>
  C4 as stated fails: a forced call for index 5 calls \<open>resetAfterIndex\<close> with 6, and the
  timer armed by a call for index 9 resets from 5, the position of the first mounted row
  (data index 4).
\<close>

theorem clearSizeCache_index_counterexample:
  "resets (clearSizeCache (example_document 1200 1000) 5 True initial) = [Fin 6] \<and>
   resets (clearSizeCache (example_document 1200 1000) 5 True initial) \<noteq> [Fin 5] \<and>
   fire example_context (example_document 1200 1000) 1
       (clearSizeCache (example_document 1200 1000) 9 False initial) =
     Inr (initial\<lparr>timeoutRef := 1, lastTimer := 1, resets := [Fin 5]\<rparr>)"
  by (simp add: clearSizeCache_def example_document_def initial_def resetAfterIndex_def
      setTimeout_def clearTimeout_def fire_def clearSizeCache_timer_def first_mounted_index_def
      js_nth_def Let_def)

section \<open>Bursts of resize signals\<close>

lemma dispatch_resize_eq:
  assumes tr: "timers_tracked s"
    and ls: "listeners s = [ShouldUseRowWidth, CalculatepixelWidths]"
  shows "dispatch_resize s =
     s\<lparr>timers :=
         (if pixelWidthsRef s \<noteq> 0
          then filter (\<lambda>e. fst e \<noteq> pixelWidthsRef s)
                 (if resizeRef s \<noteq> 0 then filter (\<lambda>e. fst e \<noteq> resizeRef s) (timers s)
                  else timers s)
          else (if resizeRef s \<noteq> 0 then filter (\<lambda>e. fst e \<noteq> resizeRef s) (timers s)
                else timers s))
         @ [(Suc (lastTimer s), 50, RowWidthTimer),
            (Suc (Suc (lastTimer s)), 50, PixelWidthsTimer (pixelWidths s))],
       lastTimer := Suc (Suc (lastTimer s)),
       resizeRef := Suc (lastTimer s),
       pixelWidthsRef := Suc (Suc (lastTimer s))\<rparr>"
proof -
  have "pixelWidthsRef s \<le> lastTimer s"
    using tr by (simp add: timers_tracked_def)
  then show ?thesis
    by (simp add: dispatch_resize_def ls shouldUseRowWidth_eq calculatepixelWidths_eq)
qed

text \<open>After one signal, one timer of each reaction is pending: the one just armed.\<close>

lemma signal_pending:
  assumes tr: "timers_tracked s"
    and ls: "listeners s = [ShouldUseRowWidth, CalculatepixelWidths]"
  shows "filter (\<lambda>e. snd (snd e) = RowWidthTimer) (timers (dispatch_resize s)) =
           [(Suc (lastTimer s), 50, RowWidthTimer)]"
    and "filter (\<lambda>e. is_widths_timer (snd (snd e))) (timers (dispatch_resize s)) =
           [(Suc (Suc (lastTimer s)), 50, PixelWidthsTimer (pixelWidths s))]"
    and "map_of (timers (dispatch_resize s)) (Suc (lastTimer s)) = Some (50, RowWidthTimer)"
    and "map_of (timers (dispatch_resize s)) (Suc (Suc (lastTimer s))) =
           Some (50, PixelWidthsTimer (pixelWidths s))"
proof -
  let ?rest = "if resizeRef s \<noteq> 0 then filter (\<lambda>e. fst e \<noteq> resizeRef s) (timers s) else timers s"
  let ?old = "if pixelWidthsRef s \<noteq> 0 then filter (\<lambda>e. fst e \<noteq> pixelWidthsRef s) ?rest else ?rest"
  have sub: "set ?old \<subseteq> set (timers s)" by auto
  have row: "snd (snd e) \<noteq> RowWidthTimer" if "e \<in> set ?old" for e
  proof
    assume r: "snd (snd e) = RowWidthTimer"
    obtain t dl cb where e: "e = (t, dl, cb)" by (cases e) auto
    from that sub have in_s: "(t, dl, cb) \<in> set (timers s)" unfolding e by blast
    have "t = resizeRef s" using timers_tracked_ref [OF tr in_s] r e by simp
    moreover have "0 < t" using timers_tracked_pos [OF tr in_s] .
    ultimately show False using that e by (auto split: if_splits)
  qed
  have wid: "\<not> is_widths_timer (snd (snd e))" if "e \<in> set ?old" for e
  proof
    assume r: "is_widths_timer (snd (snd e))"
    obtain t dl cb where e: "e = (t, dl, cb)" by (cases e) auto
    from that sub have in_s: "(t, dl, cb) \<in> set (timers s)" unfolding e by blast
    have "timer_ref s cb = Some (pixelWidthsRef s)" using r e by (cases cb) simp_all
    then have "t = pixelWidthsRef s" using timers_tracked_ref [OF tr in_s] by simp
    moreover have "0 < t" using timers_tracked_pos [OF tr in_s] .
    ultimately show False using that e by (auto split: if_splits)
  qed
  have t: "timers (dispatch_resize s) =
      ?old @ [(Suc (lastTimer s), 50, RowWidthTimer),
              (Suc (Suc (lastTimer s)), 50, PixelWidthsTimer (pixelWidths s))]"
    by (simp add: dispatch_resize_eq [OF tr ls])
  have f1: "filter (\<lambda>e. snd (snd e) = RowWidthTimer) ?old = []"
    using row by (simp only: filter_empty_conv) blast
  have f2: "filter (\<lambda>e. is_widths_timer (snd (snd e))) ?old = []"
    using wid by (simp only: filter_empty_conv) blast
  show "filter (\<lambda>e. snd (snd e) = RowWidthTimer) (timers (dispatch_resize s)) =
      [(Suc (lastTimer s), 50, RowWidthTimer)]"
    unfolding t filter_append f1 by simp
  show "filter (\<lambda>e. is_widths_timer (snd (snd e))) (timers (dispatch_resize s)) =
      [(Suc (Suc (lastTimer s)), 50, PixelWidthsTimer (pixelWidths s))]"
    unfolding t filter_append f2 by simp
  have le: "x \<le> lastTimer s" if "x \<in> fst ` set ?old" for x
    using that sub timers_tracked_le [OF tr] by fastforce
  have "Suc (lastTimer s) \<notin> fst ` set ?old"
    using le [of "Suc (lastTimer s)"] by linarith
  then have n1: "map_of ?old (Suc (lastTimer s)) = None"
    by (rule map_of_eq_None_iff [THEN iffD2])
  have "Suc (Suc (lastTimer s)) \<notin> fst ` set ?old"
    using le [of "Suc (Suc (lastTimer s))"] by linarith
  then have n2: "map_of ?old (Suc (Suc (lastTimer s))) = None"
    by (rule map_of_eq_None_iff [THEN iffD2])
  show "map_of (timers (dispatch_resize s)) (Suc (lastTimer s)) = Some (50, RowWidthTimer)"
    unfolding t by (subst map_of_append_None [OF n1]) simp
  show "map_of (timers (dispatch_resize s)) (Suc (Suc (lastTimer s))) =
      Some (50, PixelWidthsTimer (pixelWidths s))"
    unfolding t by (subst map_of_append_None [OF n2]) simp
qed

lemma run_snoc: "run ctx (evs @ [(d, e)]) s = step ctx d e (run ctx evs s)"
  by (induction evs arbitrary: s) auto

text \<open>Signals alone recompute nothing.\<close>

lemma signal_fields_fold:
  "pixelWidths (foldl (\<lambda>acc l. run_listener l acc) s ls) = pixelWidths s \<and>
   useRowWidth (foldl (\<lambda>acc l. run_listener l acc) s ls) = useRowWidth s \<and>
   updates (foldl (\<lambda>acc l. run_listener l acc) s ls) = updates s \<and>
   resets (foldl (\<lambda>acc l. run_listener l acc) s ls) = resets s"
proof (induction ls arbitrary: s)
  case Nil
  show ?case by simp
next
  case (Cons l ls)
  have "pixelWidths (run_listener l s) = pixelWidths s \<and>
      useRowWidth (run_listener l s) = useRowWidth s \<and>
      updates (run_listener l s) = updates s \<and> resets (run_listener l s) = resets s"
    by (cases l) (simp_all add: shouldUseRowWidth_eq calculatepixelWidths_eq)
  with Cons.IH [of "run_listener l s"] show ?case by simp
qed

lemma signals_fields:
  assumes "\<forall>x \<in> set evs. snd x = Resize"
  shows "pixelWidths (run ctx evs s) = pixelWidths s \<and>
   useRowWidth (run ctx evs s) = useRowWidth s \<and>
   updates (run ctx evs s) = updates s \<and> resets (run ctx evs s) = resets s"
  using assms
proof (induction evs arbitrary: s)
  case Nil
  show ?case by simp
next
  case (Cons x evs)
  obtain d e where x: "x = (d, e)" by (cases x)
  with Cons.prems have e: "e = Resize" by simp
  have "pixelWidths (dispatch_resize s) = pixelWidths s \<and>
      useRowWidth (dispatch_resize s) = useRowWidth s \<and>
      updates (dispatch_resize s) = updates s \<and> resets (dispatch_resize s) = resets s"
    unfolding dispatch_resize_def by (rule signal_fields_fold)
  moreover have "\<forall>x \<in> set evs. snd x = Resize" using Cons.prems by simp
  ultimately show ?case
    using Cons.IH [of "dispatch_resize s"] by (simp add: x e)
qed

text \<open>
  C5, as amended. In every state that a mounted component reaches, after a burst of
  \<open>N \<ge> 1\<close> resize signals with no timer firing in between, exactly one row-width timer
  and exactly one column-width timer are pending, both of 50 ms and both armed by the last
  signal (their ids were handed out after the signal before it); no recomputation has run
  during the burst. When the pending timer fires, the recomputation runs once, on the
  document of the moment of firing, and no timer of that reaction stays pending; the
  column-width recomputation compares against the width vector that was current during
  the burst.
\<close>

theorem resize_burst_coalesces:
  assumes "mount ctx d0 = Inr s0" and "s = run ctx pre s0"
    and "evs \<noteq> []" and "\<forall>x \<in> set evs. snd x = Resize"
  shows "let s' = run ctx evs s; before_last = run ctx (butlast evs) s in
     filter (\<lambda>e. snd (snd e) = RowWidthTimer) (timers s') = [(resizeRef s', 50, RowWidthTimer)] \<and>
     filter (\<lambda>e. is_widths_timer (snd (snd e))) (timers s') =
       [(pixelWidthsRef s', 50, PixelWidthsTimer (pixelWidths s))] \<and>
     lastTimer before_last < resizeRef s' \<and> lastTimer before_last < pixelWidthsRef s' \<and>
     pixelWidths s' = pixelWidths s \<and> useRowWidth s' = useRowWidth s \<and>
     updates s' = updates s \<and>
     (\<forall>d. fire ctx d (resizeRef s') s' =
        shouldUseRowWidth_timer d (clearTimeout (resizeRef s') s')) \<and>
     (\<forall>d. fire ctx d (pixelWidthsRef s') s' =
        Inr (pixelWidthsHelper ctx (pixelWidths s) d (clearTimeout (pixelWidthsRef s') s'))) \<and>
     filter (\<lambda>e. snd (snd e) = RowWidthTimer) (timers (clearTimeout (resizeRef s') s')) = [] \<and>
     filter (\<lambda>e. is_widths_timer (snd (snd e)))
       (timers (clearTimeout (pixelWidthsRef s') s')) = []"
proof -
  define b where "b = run ctx (butlast evs) s"
  obtain d where last: "evs = butlast evs @ [(d, Resize)]"
    using assms(3,4) by (metis append_butlast_last_id last_in_set prod.collapse)
  have s': "run ctx evs s = dispatch_resize b"
    unfolding b_def by (subst last) (simp add: run_snoc)
  have "b = run ctx (pre @ butlast evs) s0"
    unfolding b_def assms(2) by (induction pre arbitrary: s0) auto
  then have tr: "timers_tracked b"
    and ls: "listeners b = [ShouldUseRowWidth, CalculatepixelWidths]"
    using reachable_state [OF assms(1)] by simp_all
  have "\<forall>x \<in> set (butlast evs). snd x = Resize"
    using assms(4) by (meson in_set_butlastD)
  then have pw: "pixelWidths b = pixelWidths s"
    unfolding b_def using signals_fields by blast
  have refs: "resizeRef (dispatch_resize b) = Suc (lastTimer b)"
    "pixelWidthsRef (dispatch_resize b) = Suc (Suc (lastTimer b))"
    by (simp_all add: dispatch_resize_eq [OF tr ls])
  note pend = signal_pending [OF tr ls]
  have fields: "pixelWidths (run ctx evs s) = pixelWidths s \<and>
      useRowWidth (run ctx evs s) = useRowWidth s \<and> updates (run ctx evs s) = updates s"
    using signals_fields [OF assms(4)] by blast
  have fire1: "fire ctx d' (Suc (lastTimer b)) (dispatch_resize b) =
      shouldUseRowWidth_timer d' (clearTimeout (Suc (lastTimer b)) (dispatch_resize b))" for d'
    by (simp add: fire_def pend(3))
  have fire2: "fire ctx d' (Suc (Suc (lastTimer b))) (dispatch_resize b) =
      Inr (pixelWidthsHelper ctx (pixelWidths s) d'
        (clearTimeout (Suc (Suc (lastTimer b))) (dispatch_resize b)))" for d'
    by (simp add: fire_def pend(4) pw)
  have gone1: "filter (\<lambda>e. snd (snd e) = RowWidthTimer)
      (timers (clearTimeout (Suc (lastTimer b)) (dispatch_resize b))) = []"
  proof -
    have "filter (\<lambda>e. snd (snd e) = RowWidthTimer)
        (timers (clearTimeout (Suc (lastTimer b)) (dispatch_resize b))) =
      filter (\<lambda>e. fst e \<noteq> Suc (lastTimer b))
        (filter (\<lambda>e. snd (snd e) = RowWidthTimer) (timers (dispatch_resize b)))"
      by (simp add: clearTimeout_def conj_commute)
    then show ?thesis unfolding pend(1) by simp
  qed
  have gone2: "filter (\<lambda>e. is_widths_timer (snd (snd e)))
      (timers (clearTimeout (Suc (Suc (lastTimer b))) (dispatch_resize b))) = []"
  proof -
    have "filter (\<lambda>e. is_widths_timer (snd (snd e)))
        (timers (clearTimeout (Suc (Suc (lastTimer b))) (dispatch_resize b))) =
      filter (\<lambda>e. fst e \<noteq> Suc (Suc (lastTimer b)))
        (filter (\<lambda>e. is_widths_timer (snd (snd e))) (timers (dispatch_resize b)))"
      by (simp add: clearTimeout_def conj_commute)
    then show ?thesis unfolding pend(2) by simp
  qed
  have lt: "lastTimer b < resizeRef (run ctx evs s)" "lastTimer b < pixelWidthsRef (run ctx evs s)"
    unfolding s' refs by simp_all
  show ?thesis
    unfolding Let_def b_def [symmetric]
    using pend(1,2) fields fire1 fire2 gone1 gone2 lt
    unfolding s' refs pw by simp
qed

theorem resize_burst_coalesces_witness:
  "mount example_context (example_document 1200 1000) =
     Inr \<lparr>resizeRef = 0, timeoutRef = 0, pixelWidthsRef = 0, pixelWidths = [266, 266, 266],
          useRowWidth = False, updates = 2, timers = [(1, 0, KickTimer)], lastTimer = 1,
          listeners = [ShouldUseRowWidth, CalculatepixelWidths], resets = []\<rparr> \<and>
   filter (\<lambda>e. snd (snd e) = RowWidthTimer)
     (timers (run example_context
        [(example_document 1200 1000, Resize), (example_document 800 1000, Resize)]
        \<lparr>resizeRef = 0, timeoutRef = 0, pixelWidthsRef = 0, pixelWidths = [266, 266, 266],
         useRowWidth = False, updates = 2, timers = [(1, 0, KickTimer)], lastTimer = 1,
         listeners = [ShouldUseRowWidth, CalculatepixelWidths], resets = []\<rparr>)) =
     [(4, 50, RowWidthTimer)] \<and>
   filter (\<lambda>e. is_widths_timer (snd (snd e)))
     (timers (run example_context
        [(example_document 1200 1000, Resize), (example_document 800 1000, Resize)]
        \<lparr>resizeRef = 0, timeoutRef = 0, pixelWidthsRef = 0, pixelWidths = [266, 266, 266],
         useRowWidth = False, updates = 2, timers = [(1, 0, KickTimer)], lastTimer = 1,
         listeners = [ShouldUseRowWidth, CalculatepixelWidths], resets = []\<rparr>)) =
     [(5, 50, PixelWidthsTimer [266, 266, 266])]"
proof -
  let ?d = "example_document 1200 1000"
  let ?s0 = "\<lparr>resizeRef = 0, timeoutRef = 0, pixelWidthsRef = 0, pixelWidths = [266, 266, 266],
     useRowWidth = False, updates = 2, timers = [(1, 0, KickTimer)], lastTimer = 1,
     listeners = [ShouldUseRowWidth, CalculatepixelWidths], resets = []\<rparr>"
  let ?evs = "[(?d, Resize), (example_document 800 1000, Resize)]"
  let ?s' = "run example_context ?evs (run example_context [] ?s0)"
  let ?r = "run example_context ?evs ?s0"
  have m: "mount example_context ?d = Inr ?s0"
    by (simp add: mount_def example_context_def example_document_def initial_def
        pixelWidthsHelper_def calculateColumnWidths_def arraysMatch_def setPixelWidths_def
        setUseRowWidth_def setTimeout_def addEventListener_def Let_def)
  have ne: "?evs \<noteq> []" by simp
  have al: "\<forall>x \<in> set ?evs. snd x = Resize" by simp
  have r: "resizeRef ?r = 4" "pixelWidthsRef ?r = 5"
    by (simp_all add: dispatch_resize_def shouldUseRowWidth_eq calculatepixelWidths_eq)
  have p: "pixelWidths ?s0 = [266, 266, 266]" by simp
  note T = resize_burst_coalesces [OF m refl ne al, where pre = "[]", unfolded Let_def]
  from T have c1: "filter (\<lambda>e. snd (snd e) = RowWidthTimer) (timers ?s') =
      [(resizeRef ?s', 50, RowWidthTimer)]"
    by (rule conjunct1)
  from T have c2: "filter (\<lambda>e. is_widths_timer (snd (snd e))) (timers ?s') =
      [(pixelWidthsRef ?s', 50, PixelWidthsTimer (pixelWidths (run example_context [] ?s0)))]"
    by (rule conjunct2 [THEN conjunct1])
  have s: "run example_context [] ?s0 = ?s0" by simp
  from m c1 [unfolded s, unfolded r] c2 [unfolded s, unfolded r p] show ?thesis by blast
qed

text \<open>
  C5 as stated fails in what the recomputation uses. A signal arrives while the parent
  has a scroll width of 1200 in a client width of 1000; the timer it armed fires when the
  parent has a scroll width of 800: the flag published is true, computed from the
  document of the firing, where the state at the time of the signal gives false.
\<close>

theorem resize_state_counterexample:
  "mount example_context (example_document 1200 1000) =
     Inr \<lparr>resizeRef = 0, timeoutRef = 0, pixelWidthsRef = 0, pixelWidths = [266, 266, 266],
          useRowWidth = False, updates = 2, timers = [(1, 0, KickTimer)], lastTimer = 1,
          listeners = [ShouldUseRowWidth, CalculatepixelWidths], resets = []\<rparr> \<and>
   useRowWidth (run example_context
      [(example_document 1200 1000, Resize), (example_document 800 1000, Fire 2)]
      \<lparr>resizeRef = 0, timeoutRef = 0, pixelWidthsRef = 0, pixelWidths = [266, 266, 266],
       useRowWidth = False, updates = 2, timers = [(1, 0, KickTimer)], lastTimer = 1,
       listeners = [ShouldUseRowWidth, CalculatepixelWidths], resets = []\<rparr>) = True \<and>
   useRowWidth (run example_context
      [(example_document 1200 1000, Resize), (example_document 1200 1000, Fire 2)]
      \<lparr>resizeRef = 0, timeoutRef = 0, pixelWidthsRef = 0, pixelWidths = [266, 266, 266],
       useRowWidth = False, updates = 2, timers = [(1, 0, KickTimer)], lastTimer = 1,
       listeners = [ShouldUseRowWidth, CalculatepixelWidths], resets = []\<rparr>) = False"
  by (simp add: mount_def example_context_def example_document_def initial_def
      pixelWidthsHelper_def calculateColumnWidths_def arraysMatch_def setPixelWidths_def
      setUseRowWidth_def setTimeout_def addEventListener_def Let_def
      dispatch_resize_def shouldUseRowWidth_eq calculatepixelWidths_eq fire_def clearTimeout_def
      shouldUseRowWidth_timer_def)

section \<open>Teardown\<close>

lemma unmount_eq:
  "unmount s =
     s\<lparr>timers :=
         (let t1 = (if resizeRef s \<noteq> 0 then filter (\<lambda>e. fst e \<noteq> resizeRef s) (timers s)
                    else timers s);
              t2 = (if pixelWidthsRef s \<noteq> 0 then filter (\<lambda>e. fst e \<noteq> pixelWidthsRef s) t1
                    else t1)
          in if timeoutRef s \<noteq> 0 then filter (\<lambda>e. fst e \<noteq> timeoutRef s) t2 else t2),
       listeners :=
         filter (\<lambda>x. x \<noteq> CalculatepixelWidths)
           (filter (\<lambda>x. x \<noteq> ShouldUseRowWidth) (listeners s))\<rparr>"
  by (simp add: unmount_def clearTimeout_def removeEventListener_def Let_def)

text \<open>After the cleanups only the timer that dispatches the resize can be pending.\<close>

lemma unmount_timers:
  assumes tr: "timers_tracked s" and "e \<in> set (timers (unmount s))"
  shows "snd (snd e) = KickTimer"
proof -
  obtain t dl cb where e: "e = (t, dl, cb)" by (cases e) auto
  have in_s: "(t, dl, cb) \<in> set (timers s)"
    using assms(2) unfolding e unmount_eq by (auto simp: Let_def split: if_splits)
  have out: "(resizeRef s \<noteq> 0 \<longrightarrow> t \<noteq> resizeRef s) \<and>
      (pixelWidthsRef s \<noteq> 0 \<longrightarrow> t \<noteq> pixelWidthsRef s) \<and>
      (timeoutRef s \<noteq> 0 \<longrightarrow> t \<noteq> timeoutRef s)"
    using assms(2) unfolding e unmount_eq by (auto simp: Let_def split: if_splits)
  have pos: "0 < t" using timers_tracked_pos [OF tr in_s] .
  have "timer_ref s cb = None"
  proof (cases "timer_ref s cb")
    case None
    then show ?thesis .
  next
    case (Some r)
    then have "t = r" using timers_tracked_ref [OF tr in_s] by simp
    with Some out pos show ?thesis by (cases cb) auto
  qed
  then show ?thesis unfolding e by (cases cb) simp_all
qed

text \<open>
  A timer that fires when no listener is registered and only the dispatching timer can
  be pending changes nothing but the table of timers.
\<close>

lemma silent_fire:
  assumes "listeners s = []" and "\<forall>e \<in> set (timers s). snd (snd e) = KickTimer"
  shows "step ctx d (Fire t) s = s \<or> step ctx d (Fire t) s = clearTimeout t s"
proof (cases "map_of (timers s) t")
  case None
  then show ?thesis by (simp add: fire_def)
next
  case (Some v)
  obtain dl cb where v: "v = (dl, cb)" by (cases v)
  from Some have "(t, dl, cb) \<in> set (timers s)"
    unfolding v by (rule map_of_SomeD)
  with assms(2) have "cb = KickTimer" by fastforce
  moreover have "dispatch_resize (clearTimeout t s) = clearTimeout t s"
    using assms(1) by (simp add: dispatch_resize_def clearTimeout_def)
  ultimately show ?thesis
    using Some by (simp add: fire_def v)
qed

lemma silent_run:
  assumes "listeners s = []" and "\<forall>e \<in> set (timers s). snd (snd e) = KickTimer"
    and "\<forall>x \<in> set later. is_Fire (snd x)"
  shows "pixelWidths (run ctx later s) = pixelWidths s \<and>
    useRowWidth (run ctx later s) = useRowWidth s \<and>
    resets (run ctx later s) = resets s \<and> updates (run ctx later s) = updates s"
  using assms
proof (induction later arbitrary: s)
  case Nil
  show ?case by simp
next
  case (Cons x later)
  obtain d e where x: "x = (d, e)" by (cases x)
  with Cons.prems(3) obtain t where e: "e = Fire t" by (cases e) auto
  let ?s1 = "step ctx d (Fire t) s"
  have alt: "?s1 = s \<or> ?s1 = clearTimeout t s"
    using silent_fire [OF Cons.prems(1,2)] .
  then have keep: "listeners ?s1 = [] \<and> (\<forall>e \<in> set (timers ?s1). snd (snd e) = KickTimer) \<and>
      pixelWidths ?s1 = pixelWidths s \<and> useRowWidth ?s1 = useRowWidth s \<and>
      resets ?s1 = resets s \<and> updates ?s1 = updates s"
    using Cons.prems(1,2) by (auto simp: clearTimeout_def)
  moreover have "\<forall>x \<in> set later. is_Fire (snd x)" using Cons.prems(3) by simp
  ultimately have "pixelWidths (run ctx later ?s1) = pixelWidths ?s1 \<and>
      useRowWidth (run ctx later ?s1) = useRowWidth ?s1 \<and>
      resets (run ctx later ?s1) = resets ?s1 \<and> updates (run ctx later ?s1) = updates ?s1"
    using Cons.IH [of ?s1] by blast
  with keep show ?case by (simp add: x e)
qed

text \<open>
  C9. In every state that a mounted component reaches, the cleanups leave no debounce
  timer pending (neither the one of the size cache nor the one of the row-width mode nor
  the one of the column widths) and no resize listener registered, and they write neither
  the width vector nor the mode flag nor anything to the engine. Whatever timers fire
  afterwards, in whatever documents, the width vector, the mode flag, the calls received
  by the engine and the number of state updates stay as they were.
\<close>

theorem unmount_silences:
  assumes "mount ctx d0 = Inr s0" and "\<forall>x \<in> set later. is_Fire (snd x)"
  shows "let u = run ctx evs s0; s = unmount u; s' = run ctx later s in
     listeners s = [] \<and>
     filter (\<lambda>e. snd (snd e) \<noteq> KickTimer) (timers s) = [] \<and>
     pixelWidths s = pixelWidths u \<and> useRowWidth s = useRowWidth u \<and>
     resets s = resets u \<and> updates s = updates u \<and>
     pixelWidths s' = pixelWidths s \<and> useRowWidth s' = useRowWidth s \<and>
     resets s' = resets s \<and> updates s' = updates s"
proof -
  let ?u = "run ctx evs s0"
  have tr: "timers_tracked ?u"
    and ls: "listeners ?u = [ShouldUseRowWidth, CalculatepixelWidths]"
    using reachable_state [OF assms(1)] by simp_all
  have l: "listeners (unmount ?u) = []"
    by (simp add: unmount_eq ls)
  have k: "\<forall>e \<in> set (timers (unmount ?u)). snd (snd e) = KickTimer"
    using unmount_timers [OF tr] by blast
  then have f: "filter (\<lambda>e. snd (snd e) \<noteq> KickTimer) (timers (unmount ?u)) = []"
    by (simp only: filter_empty_conv) blast
  have same: "pixelWidths (unmount ?u) = pixelWidths ?u \<and> useRowWidth (unmount ?u) = useRowWidth ?u \<and>
      resets (unmount ?u) = resets ?u \<and> updates (unmount ?u) = updates ?u"
    by (simp add: unmount_eq)
  show ?thesis
    unfolding Let_def using l f same silent_run [OF l k assms(2)] by blast
qed

theorem unmount_silences_witness:
  "mount example_context (example_document 1200 1000) =
     Inr \<lparr>resizeRef = 0, timeoutRef = 0, pixelWidthsRef = 0, pixelWidths = [266, 266, 266],
          useRowWidth = False, updates = 2, timers = [(1, 0, KickTimer)], lastTimer = 1,
          listeners = [ShouldUseRowWidth, CalculatepixelWidths], resets = []\<rparr> \<and>
   listeners (unmount (run example_context
      [(example_document 1200 1000, Resize), (example_document 1200 1000, ClearSizeCache 3 False)]
      \<lparr>resizeRef = 0, timeoutRef = 0, pixelWidthsRef = 0, pixelWidths = [266, 266, 266],
       useRowWidth = False, updates = 2, timers = [(1, 0, KickTimer)], lastTimer = 1,
       listeners = [ShouldUseRowWidth, CalculatepixelWidths], resets = []\<rparr>)) = [] \<and>
   useRowWidth (run example_context
      [(example_document 800 1000, Fire 2), (example_document 800 1000, Fire 3),
       (example_document 800 1000, Fire 4), (example_document 800 1000, Fire 1)]
      (unmount (run example_context
         [(example_document 1200 1000, Resize), (example_document 1200 1000, ClearSizeCache 3 False)]
         \<lparr>resizeRef = 0, timeoutRef = 0, pixelWidthsRef = 0, pixelWidths = [266, 266, 266],
          useRowWidth = False, updates = 2, timers = [(1, 0, KickTimer)], lastTimer = 1,
          listeners = [ShouldUseRowWidth, CalculatepixelWidths], resets = []\<rparr>))) = False"
proof -
  let ?d = "example_document 1200 1000"
  let ?e = "example_document 800 1000"
  let ?s0 = "\<lparr>resizeRef = 0, timeoutRef = 0, pixelWidthsRef = 0, pixelWidths = [266, 266, 266],
     useRowWidth = False, updates = 2, timers = [(1, 0, KickTimer)], lastTimer = 1,
     listeners = [ShouldUseRowWidth, CalculatepixelWidths], resets = []\<rparr>"
  let ?evs = "[(?d, Resize), (?d, ClearSizeCache 3 False)]"
  let ?later = "[(?e, Fire 2), (?e, Fire 3), (?e, Fire 4), (?e, Fire 1)]"
  have m: "mount example_context ?d = Inr ?s0"
    by (simp add: mount_def example_context_def example_document_def initial_def
        pixelWidthsHelper_def calculateColumnWidths_def arraysMatch_def setPixelWidths_def
        setUseRowWidth_def setTimeout_def addEventListener_def Let_def)
  have al: "\<forall>x \<in> set ?later. is_Fire (snd x)" by simp
  note T = unmount_silences [OF m al, where evs = ?evs, unfolded Let_def]
  from T have c1: "listeners (unmount (run example_context ?evs ?s0)) = []"
    by (rule conjunct1)
  from T have "useRowWidth (run example_context ?later (unmount (run example_context ?evs ?s0))) =
      useRowWidth (unmount (run example_context ?evs ?s0))"
    and "useRowWidth (unmount (run example_context ?evs ?s0)) =
      useRowWidth (run example_context ?evs ?s0)"
    by blast+
  moreover have "useRowWidth (run example_context ?evs ?s0) = False"
    using signals_fields [of "[(?d, Resize)]" example_context ?s0]
    by (simp add: listeners_clearSizeCache clearSizeCache_arm_eq example_document_def)
  ultimately have c2: "useRowWidth (run example_context ?later
      (unmount (run example_context ?evs ?s0))) = False"
    by simp
  from m c1 c2 show ?thesis by blast
qed

end
